theory Spec2Isabelle
  imports Main "HOL-Library.Sublist"
begin

section \<open>JavaScript values used by the drive core\<close>

text \<open>
  A JavaScript string is modelled as a \<open>string\<close> (the bytes of its UTF-8 form), a value
  that may be \<open>undefined\<close> or \<open>null\<close> as an \<open>option\<close>.  A thrown \<open>Error\<close> is a value
  of \<open>js_error\<close>: its \<open>name\<close>, its \<open>message\<close> and, for an error of the relay SDK, the
  HTTP status of \<open>error.response\<close>.
\<close>

type_synonym bytes = string

datatype js_error = JsError (err_name: string) (err_message: string) (err_status: "nat option")

definition Error :: "string \<Rightarrow> js_error" where
  "Error msg = JsError ''Error'' msg None"

definition TypeError :: "string \<Rightarrow> js_error" where
  "TypeError msg = JsError ''TypeError'' msg None"

definition truthy :: "string option \<Rightarrow> bool" where
  "truthy v = (case v of None \<Rightarrow> False | Some s \<Rightarrow> s \<noteq> [])"

text \<open>\<open>a || b\<close> on values that are strings or undefined.\<close>

definition js_or :: "string option \<Rightarrow> string option \<Rightarrow> string option" where
  "js_or a b = (if truthy a then a else b)"

text \<open>\<open>s.split(c)\<close> for a one-character separator: never empty, \<open>"".split("/")\<close> is \<open>[""]\<close>.\<close>

fun split_on :: "char \<Rightarrow> string \<Rightarrow> string list" where
  "split_on c [] = [[]]"
| "split_on c (x # xs) =
     (if x = c then [] # split_on c xs
      else (x # hd (split_on c xs)) # tl (split_on c xs))"

text \<open>\<open>s.split("/").pop()\<close>: the final path segment.\<close>

definition last_segment :: "string \<Rightarrow> string" where
  "last_segment s = last (split_on CHR ''/'' s)"

definition endsWith :: "string \<Rightarrow> string \<Rightarrow> bool" where
  "endsWith s t = (length t \<le> length s \<and> drop (length s - length t) s = t)"

definition startsWith :: "string \<Rightarrow> string \<Rightarrow> bool" where
  "startsWith s t = (take (length t) s = t)"

text \<open>\<open>s.includes(t)\<close>: \<open>t\<close> occurs in \<open>s\<close> as a contiguous run.\<close>

fun includes_str :: "string \<Rightarrow> string \<Rightarrow> bool" where
  "includes_str [] t = (t = [])"
| "includes_str (x # xs) t = (startsWith (x # xs) t \<or> includes_str xs t)"

section \<open>Blobs, files and the external collaborators\<close>

record js_blob =
  blob_content :: bytes
  blob_type :: string

record js_file =
  file_content :: bytes
  file_type :: string
  file_name :: string
  webkitRelativePath :: "string option"

definition blob_of_file :: "js_file \<Rightarrow> js_blob" where
  "blob_of_file f = \<lparr>blob_content = file_content f, blob_type = file_type f\<rparr>"

text \<open>
  The browser and the SEA library are external: \<open>FileReader.readAsDataURL\<close>, \<open>fetch\<close> of
  a data URL, \<open>atob\<close>, \<open>SEA.encrypt\<close> and \<open>SEA.decrypt\<close> (which yields undefined when it
  cannot decrypt) are parameters.  \<open>sea_present k\<close> says whether \<open>window.SEA\<close> is set at
  the \<open>k\<close>-th poll of \<open>loadSEA\<close> (polls are 100 ms apart; poll 0 is the moment of the
  call).
\<close>

record platform =
  readAsDataURL :: "js_file \<Rightarrow> js_error + string"
  fetch_data_url :: "string \<Rightarrow> js_error + js_blob"
  atob :: "string \<Rightarrow> js_error + bytes"
  sea_encrypt :: "string \<Rightarrow> string \<Rightarrow> js_error + string"
  sea_decrypt :: "string \<Rightarrow> string \<Rightarrow> js_error + string option"
  sea_present :: "nat \<Rightarrow> bool"

section \<open>loadSEA, encryptFile, decryptBlob\<close>

definition maxAttempts :: nat where
  "maxAttempts = 10"

text \<open>The inner \<open>checkSEA\<close> of \<open>loadSEA\<close>: it polls again while \<open>attempts < maxAttempts\<close>.\<close>

function checkSEA :: "(nat \<Rightarrow> bool) \<Rightarrow> nat \<Rightarrow> js_error + unit" where
  "checkSEA present attempts =
     (if present attempts then Inr ()
      else if attempts < maxAttempts then checkSEA present (Suc attempts)
      else Inl (Error ''SEA library not available. Make sure gun.js and sea.js are loaded in the HTML.''))"
  by pat_completeness auto
termination
  by (relation "measure (\<lambda>(present, attempts). maxAttempts - attempts)") auto

declare checkSEA.simps [simp del]

definition loadSEA :: "platform \<Rightarrow> js_error + unit" where
  "loadSEA P = (if sea_present P 0 then Inr () else checkSEA (sea_present P) 0)"

text \<open>\<open>catch (error) { throw new Error(prefix + error.message) }\<close>\<close>

definition rethrow :: "string \<Rightarrow> js_error + 'a \<Rightarrow> js_error + 'a" where
  "rethrow pre r = (case r of Inl e \<Rightarrow> Inl (Error (pre @ err_message e)) | Inr v \<Rightarrow> Inr v)"

definition encryptedFileName :: "string \<Rightarrow> string" where
  "encryptedFileName name = (if endsWith name ''.enc'' then name else name @ ''.enc'')"

definition encryptFile :: "platform \<Rightarrow> js_file \<Rightarrow> string option \<Rightarrow> js_error + js_file" where
  "encryptFile P file token =
     (case token of
        None \<Rightarrow> Inl (Error ''Auth token is required for encryption'')
      | Some tok \<Rightarrow>
          if tok = [] then Inl (Error ''Auth token is required for encryption'')
          else rethrow ''Encryption failed: ''
            (case loadSEA P of
               Inl e \<Rightarrow> Inl e
             | Inr _ \<Rightarrow>
                 (case readAsDataURL P file of
                    Inl e \<Rightarrow> Inl e
                  | Inr base64data \<Rightarrow>
                      (case sea_encrypt P base64data tok of
                         Inl e \<Rightarrow> Inl e
                       | Inr encryptedData \<Rightarrow>
                           Inr \<lparr>file_content = encryptedData,
                                file_type = ''text/plain'',
                                file_name = encryptedFileName (file_name file),
                                webkitRelativePath = None\<rparr>))))"

text \<open>\<open>decryptedBase64.split(",")[1] || decryptedBase64\<close>\<close>

definition base64_part :: "string \<Rightarrow> string" where
  "base64_part s =
     (case split_on CHR '','' s of
        _ # p # _ \<Rightarrow> (if p = [] then s else p)
      | _ \<Rightarrow> s)"

definition decryptBlob :: "platform \<Rightarrow> js_blob \<Rightarrow> string option \<Rightarrow> js_error + js_blob" where
  "decryptBlob P encryptedBlob token =
     (case token of
        None \<Rightarrow> Inl (Error ''Auth token is required for decryption'')
      | Some tok \<Rightarrow>
          if tok = [] then Inl (Error ''Auth token is required for decryption'')
          else rethrow ''Decryption failed: ''
            (case loadSEA P of
               Inl e \<Rightarrow> Inl e
             | Inr _ \<Rightarrow>
                 (case sea_decrypt P (blob_content encryptedBlob) tok of
                    Inl e \<Rightarrow> Inl e
                  | Inr decryptedBase64 \<Rightarrow>
                      (case decryptedBase64 of
                         None \<Rightarrow> Inl (Error ''Decryption failed - invalid token or corrupted data'')
                       | Some d \<Rightarrow>
                           if d = [] then Inl (Error ''Decryption failed - invalid token or corrupted data'')
                           else if startsWith d ''data:'' then fetch_data_url P d
                           else (case atob P (base64_part d) of
                                   Inl e \<Rightarrow> Inl e
                                 | Inr bs \<Rightarrow> Inr \<lparr>blob_content = bs, blob_type = []\<rparr>)))))"

section \<open>downloadFile and downloadWithXHR\<close>

text \<open>The fields of a \<open>DriveCore\<close> instance; a token that is \<open>null\<close> is \<open>None\<close>.\<close>

record core =
  relayUrl :: string
  authToken :: "string option"
  encryptionToken :: "string option"
  userAddress :: string
  walletSignature :: string

text \<open>
  A \<open>fetch\<close> response: \<open>response.ok\<close> is a status in the range 200 to 299.  The
  \<open>Content-Length\<close> header is \<open>None\<close> when absent and \<open>Some n\<close> when it reads as the
  number \<open>n\<close>.  The body arrives as the chunks the stream reader yields.
\<close>

record response =
  resp_status :: nat
  resp_text :: "js_error + string"
  resp_content_type :: "string option"
  resp_content_length :: "nat option"
  resp_chunks :: "bytes list"

definition resp_ok :: "response \<Rightarrow> bool" where
  "resp_ok r = (200 \<le> resp_status r \<and> resp_status r < 300)"

text \<open>How an \<open>XMLHttpRequest\<close> ends, and the progress events
  \<open>(lengthComputable, loaded, total)\<close> it fires before.\<close>

datatype xhr_end = XhrLoad nat string js_blob | XhrError | XhrTimeout

record xhr_run =
  xhr_progress :: "(bool \<times> nat \<times> nat) list"
  xhr_end :: xhr_end

text \<open>
  The network: \<open>fetch k url\<close> is the outcome of the \<open>k\<close>-th call of \<open>fetch\<close> made by one
  download (rejected with an error, or resolved with a response).
\<close>

record net =
  fetch :: "nat \<Rightarrow> string \<Rightarrow> js_error + response"
  xhr :: "string \<Rightarrow> xhr_run"
  encodeURIComponent :: "string \<Rightarrow> string"

text \<open>What a download does that can be observed: requests, waits (in ms) and the
  \<open>{loaded, total}\<close> reports to \<open>onProgress\<close> (the rounded percentage is left out).\<close>

datatype event = Fetch string | Wait nat | Xhr string | Progress nat nat

record download_meta =
  isEncrypted :: bool
  meta_size :: "nat option"

fun string_of_nat :: "nat \<Rightarrow> string" where
  "string_of_nat n =
     (if n < 10 then [char_of (48 + n)]
      else string_of_nat (n div 10) @ [char_of (48 + n mod 10)])"

declare string_of_nat.simps [simp del]

definition maxRetries :: nat where
  "maxRetries = 3"

text \<open>One turn of the retry loop ends in \<open>break\<close>, in a wait followed by the next
  turn, or in an error thrown out of the loop.\<close>

datatype turn = Break response | Retry nat | Throw js_error

text \<open>The outer \<open>catch\<close> of a turn.\<close>

definition outer_catch :: "nat \<Rightarrow> js_error \<Rightarrow> turn" where
  "outer_catch attempt error =
     (if attempt = maxRetries - 1 then Throw error else Retry (1000 * (attempt + 1)))"

text \<open>The inner \<open>catch\<close> of a turn.\<close>

definition inner_catch :: "nat \<Rightarrow> js_error \<Rightarrow> turn" where
  "inner_catch attempt error =
     (if err_name error = ''AbortError''
      then outer_catch attempt (Error ''Download timeout - file too large or connection too slow'')
      else if attempt < maxRetries - 1 \<and>
              (includes_str (err_message error) ''HTTP2'' \<or>
               includes_str (err_message error) ''Failed to fetch'' \<or>
               includes_str (err_message error) ''ERR_HTTP2'')
      then Retry (1000 * (attempt + 1))
      else outer_catch attempt error)"

definition text_or_empty :: "response \<Rightarrow> string" where
  "text_or_empty r = (case resp_text r of Inl _ \<Rightarrow> [] | Inr t \<Rightarrow> t)"

definition loop_turn :: "(js_error + response) \<Rightarrow> nat \<Rightarrow> turn" where
  "loop_turn outcome attempt =
     (case outcome of
        Inl error \<Rightarrow> inner_catch attempt error
      | Inr r \<Rightarrow>
          if resp_ok r then Break r
          else inner_catch attempt
                 (Error (''Download failed: '' @ string_of_nat (resp_status r) @ '' '' @ text_or_empty r)))"

text \<open>
  The loop \<open>for (let attempt = 0; attempt < maxRetries; attempt++)\<close>.  The variable
  \<open>response\<close> keeps the last response \<open>fetch\<close> resolved with, also one that is not ok.
  The result is the events, and the error thrown or the value of \<open>response\<close> after the
  loop.
\<close>

function fetch_loop ::
  "(nat \<Rightarrow> string \<Rightarrow> js_error + response) \<Rightarrow> string \<Rightarrow> nat \<Rightarrow> response option \<Rightarrow>
   event list \<times> (js_error + response option)" where
  "fetch_loop f url attempt response =
     (if attempt < maxRetries then
        (let outcome = f attempt url;
             response' = (case outcome of Inl _ \<Rightarrow> response | Inr r \<Rightarrow> Some r)
         in case loop_turn outcome attempt of
              Break r \<Rightarrow> ([Fetch url], Inr (Some r))
            | Throw e \<Rightarrow> ([Fetch url], Inl e)
            | Retry ms \<Rightarrow>
                (case fetch_loop f url (Suc attempt) response' of
                   (evs, res) \<Rightarrow> (Fetch url # Wait ms # evs, res)))
      else ([], Inr response))"
  by pat_completeness auto
termination
  by (relation "measure (\<lambda>(f, url, attempt, response). maxRetries - attempt)") auto

declare fetch_loop.simps [simp del]

text \<open>The check after the loop.\<close>

definition after_loop :: "response option \<Rightarrow> js_error + response" where
  "after_loop response =
     (case response of
        None \<Rightarrow> Inl (Error ''Download failed: unknown No response'')
      | Some r \<Rightarrow>
          if resp_ok r then Inr r
          else Inl (Error (''Download failed: '' @
                 (if resp_status r = 0 then ''unknown'' else string_of_nat (resp_status r)) @
                 '' '' @ text_or_empty r)))"

text \<open>The stream reader: every chunk is kept, and reported when \<open>Content-Length\<close> is
  there.  \<open>loaded\<close> is the number of bytes read so far.\<close>

fun read_chunks :: "nat option \<Rightarrow> nat \<Rightarrow> bytes list \<Rightarrow> event list" where
  "read_chunks contentLength totalLength [] = []"
| "read_chunks contentLength totalLength (chunk # rest) =
     (case contentLength of
        None \<Rightarrow> read_chunks contentLength (totalLength + length chunk) rest
      | Some tot \<Rightarrow>
          Progress (totalLength + length chunk) tot #
          read_chunks contentLength (totalLength + length chunk) rest)"

text \<open>
  The white space and line terminators that \<open>String.prototype.trim\<close> strips, as the
  bytes of their UTF-8 form: TAB, LF, VT, FF, CR, space, U+00A0, U+1680, U+2000 to
  U+200A, U+2028, U+2029, U+202F, U+205F, U+3000 and U+FEFF.
\<close>

definition js_whitespace :: "string list" where
  "js_whitespace =
     [[CHR 0x09], [CHR 0x0A], [CHR 0x0B], [CHR 0x0C], [CHR 0x0D], [CHR 0x20],
      [CHR 0xC2, CHR 0xA0], [CHR 0xE1, CHR 0x9A, CHR 0x80],
      [CHR 0xE2, CHR 0x80, CHR 0x80], [CHR 0xE2, CHR 0x80, CHR 0x81],
      [CHR 0xE2, CHR 0x80, CHR 0x82], [CHR 0xE2, CHR 0x80, CHR 0x83],
      [CHR 0xE2, CHR 0x80, CHR 0x84], [CHR 0xE2, CHR 0x80, CHR 0x85],
      [CHR 0xE2, CHR 0x80, CHR 0x86], [CHR 0xE2, CHR 0x80, CHR 0x87],
      [CHR 0xE2, CHR 0x80, CHR 0x88], [CHR 0xE2, CHR 0x80, CHR 0x89],
      [CHR 0xE2, CHR 0x80, CHR 0x8A], [CHR 0xE2, CHR 0x80, CHR 0xA8],
      [CHR 0xE2, CHR 0x80, CHR 0xA9], [CHR 0xE2, CHR 0x80, CHR 0xAF],
      [CHR 0xE2, CHR 0x81, CHR 0x9F], [CHR 0xE3, CHR 0x80, CHR 0x80],
      [CHR 0xEF, CHR 0xBB, CHR 0xBF]]"

text \<open>Strips, from the front, every leading run of the sequences of the table.\<close>

function strip_leading :: "string list \<Rightarrow> string \<Rightarrow> string" where
  "strip_leading table s =
     (case find (\<lambda>q. q \<noteq> [] \<and> startsWith s q) table of
        None \<Rightarrow> s
      | Some q \<Rightarrow> strip_leading table (drop (length q) s))"
  by pat_completeness auto
termination
proof (relation "measure (\<lambda>(table, s). length s)")
  show "wf (measure (\<lambda>(table, s). length s))" by simp
next
  fix table :: "string list" and s q :: string
  assume "find (\<lambda>q. q \<noteq> [] \<and> startsWith s q) table = Some q"
  then have "q \<noteq> []" and "take (length q) s = q"
    by (auto simp: find_Some_iff startsWith_def)
  then have "s \<noteq> []" by auto
  with \<open>q \<noteq> []\<close> show "((table, drop (length q) s), (table, s)) \<in> measure (\<lambda>(table, s). length s)"
    by simp
qed

declare strip_leading.simps [simp del]

definition trim :: "string \<Rightarrow> string" where
  "trim s = rev (strip_leading (map rev js_whitespace) (rev (strip_leading js_whitespace s)))"

text \<open>
  The \<open>type\<close> of a \<open>Blob\<close> or \<open>File\<close> made with \<open>{ type: t }\<close>: \<open>t\<close> in ASCII lower case,
  or the empty string when \<open>t\<close> has a character outside U+0020 to U+007E.
\<close>

definition printable_ascii :: "char \<Rightarrow> bool" where
  "printable_ascii c = (0x20 \<le> (of_char c :: nat) \<and> (of_char c :: nat) \<le> 0x7E)"

definition ascii_lower :: "char \<Rightarrow> char" where
  "ascii_lower c =
     (case map_of (zip ''ABCDEFGHIJKLMNOPQRSTUVWXYZ'' ''abcdefghijklmnopqrstuvwxyz'') c of
        None \<Rightarrow> c
      | Some l \<Rightarrow> l)"

definition blob_type_of :: "string \<Rightarrow> string" where
  "blob_type_of t = (if list_all printable_ascii t then map ascii_lower t else [])"

definition or_default :: "string option \<Rightarrow> string \<Rightarrow> string" where
  "or_default v d = (case v of None \<Rightarrow> d | Some s \<Rightarrow> if s = [] then d else s)"

text \<open>The part of \<open>downloadFile\<close> after the loop: from the response to the blob.\<close>

definition read_response ::
  "platform \<Rightarrow> core \<Rightarrow> download_meta \<Rightarrow> response \<Rightarrow> event list \<times> (js_error + js_blob)" where
  "read_response P c metadata r =
     (let contentType = or_default (resp_content_type r) [];
          streamed = (read_chunks (resp_content_length r) 0 (resp_chunks r),
                      concat (resp_chunks r))
      in if isEncrypted metadata then
           (if contentType \<noteq> [] \<and> \<not> includes_str contentType ''text/plain'' \<and>
               \<not> includes_str contentType ''application/json''
            then (fst streamed,
                  Inr \<lparr>blob_content = snd streamed, blob_type = blob_type_of contentType\<rparr>)
            else
              (case resp_text r of
                 Inl e \<Rightarrow> ([], Inl e)
               | Inr text \<Rightarrow>
                   if startsWith (trim text) ''SEA{'' then
                     (case loadSEA P of
                        Inl e \<Rightarrow> ([], Inl e)
                      | Inr _ \<Rightarrow>
                          (case sea_decrypt P text
                                  (or_default (js_or (encryptionToken c) (authToken c)) ''null'') of
                             Inl e \<Rightarrow> ([], Inl e)
                           | Inr decrypted \<Rightarrow>
                               if \<not> truthy decrypted
                               then ([], Inl (Error ''Decryption failed - invalid token or corrupted data''))
                               else if startsWith (or_default decrypted []) ''data:''
                               then ([], fetch_data_url P (or_default decrypted []))
                               else ([], Inr \<lparr>blob_content = or_default decrypted [],
                                             blob_type = blob_type_of
                                               (or_default (resp_content_type r)
                                                  ''application/octet-stream'')\<rparr>)))
                   else ([], Inr \<lparr>blob_content = text,
                                  blob_type = blob_type_of
                                    (or_default (resp_content_type r)
                                       ''application/octet-stream'')\<rparr>)))
         else (fst streamed,
               Inr \<lparr>blob_content = snd streamed,
                    blob_type = blob_type_of
                      (or_default (resp_content_type r) ''application/octet-stream'')\<rparr>))"

definition not_empty :: "js_blob \<Rightarrow> js_error + js_blob" where
  "not_empty blob =
     (if length (blob_content blob) = 0 then Inl (Error ''Downloaded file is empty'')
      else Inr blob)"

definition downloadWithXHR :: "net \<Rightarrow> string \<Rightarrow> event list \<times> (js_error + js_blob)" where
  "downloadWithXHR N url =
     (Xhr url #
        map (\<lambda>(lengthComputable, loaded, tot). Progress loaded tot)
          (filter (\<lambda>(lengthComputable, loaded, tot). lengthComputable)
             (xhr_progress (xhr N url))),
      case xhr_end (xhr N url) of
        XhrLoad status statusText blob \<Rightarrow>
          if 200 \<le> status \<and> status < 300 then not_empty blob
          else Inl (Error (''Download failed: '' @ string_of_nat status @ '' '' @ statusText))
      | XhrError \<Rightarrow> Inl (Error ''Network error during download'')
      | XhrTimeout \<Rightarrow> Inl (Error ''Download timeout''))"

definition download_url :: "net \<Rightarrow> core \<Rightarrow> string \<Rightarrow> download_meta \<Rightarrow> string" where
  "download_url N c hash metadata =
     (if isEncrypted metadata
      then relayUrl c @ ''/api/v1/ipfs/cat/'' @ hash @ ''/decrypt?token='' @
           encodeURIComponent N (or_default (js_or (encryptionToken c) (authToken c)) ''null'')
      else relayUrl c @ ''/api/v1/ipfs/cat/'' @ hash)"

text \<open>\<open>const fileSize = metadata.size || 0\<close>\<close>

definition fileSize :: "download_meta \<Rightarrow> nat" where
  "fileSize metadata = (case meta_size metadata of None \<Rightarrow> 0 | Some n \<Rightarrow> n)"

text \<open>\<open>const isLargeFile = fileSize > 5 * 1024 * 1024\<close>\<close>

definition isLargeFile :: "download_meta \<Rightarrow> bool" where
  "isLargeFile metadata = (fileSize metadata > 5 * 1024 * 1024)"

definition downloadFile ::
  "platform \<Rightarrow> net \<Rightarrow> core \<Rightarrow> string \<Rightarrow> download_meta \<Rightarrow> event list \<times> (js_error + js_blob)" where
  "downloadFile P N c hash metadata =
     (if isEncrypted metadata \<and> \<not> (truthy (encryptionToken c) \<or> truthy (authToken c))
      then ([], Inl (Error ''Encryption token is required to decrypt this file.''))
      else
        let url = download_url N c hash metadata in
        if isLargeFile metadata then downloadWithXHR N url
        else
          (case fetch_loop (fetch N) url 0 None of
             (evs, Inl e) \<Rightarrow> (evs, Inl e)
           | (evs, Inr response) \<Rightarrow>
               (case after_loop response of
                  Inl e \<Rightarrow> (evs, Inl e)
                | Inr r \<Rightarrow>
                    (case read_response P c metadata r of
                       (evs', Inl e) \<Rightarrow> (evs @ evs', Inl e)
                     | (evs', Inr blob) \<Rightarrow> (evs @ evs', not_empty blob)))))"

section \<open>Metadata records, the local cache and the relay\<close>

text \<open>
  One entry of \<open>metadata.files\<close>, and one record of the system hash map (the fields the
  drive reads; \<open>md_hash\<close> is \<open>hash\<close>, \<open>md_files\<close> is \<open>files\<close>, and so on).
\<close>

record file_meta =
  fm_path :: "string option"
  fm_name :: "string option"
  fm_originalName :: "string option"
  fm_size :: nat
  fm_mimetype :: "string option"
  fm_isEncrypted :: bool

record metadata =
  md_hash :: string
  md_displayName :: "string option"
  md_fileName :: "string option"
  md_fileSize :: nat
  md_isEncrypted :: bool
  md_isDirectory :: bool
  md_fileCount :: nat
  md_files :: "file_meta list option"
  md_uploadedAt :: int

text \<open>
  The item \<open>shogun-drive-metadata-cache\<close> of \<open>localStorage\<close>: missing (or the empty
  string), text that \<open>JSON.parse\<close> rejects or reads as \<open>null\<close> (every reader parses
  and reads the fields inside one \<open>try\<close>), or a document with its \<open>data\<close> map and its
  \<open>timestamp\<close>, each possibly missing.
\<close>

datatype cache_item =
  NoItem
| BadJson
| CacheDoc "(string \<rightharpoonup> metadata) option" "int option"

datatype level = Warn | Err

text \<open>The requests sent to the relay, in the order they are made.\<close>

datatype call =
  Health
| PinLs
| PinRm string
| SaveSystemHash metadata
| RemoveSystemHash string string
| RemoveFetch string
| GetSystemHashesMap
| GetUserUploads string
| UploadDirectoryBrowser "js_file list"
| CatFromDirectory string string

text \<open>
  The state an operation runs in and changes: the cache item, whether \<open>setItem\<close> throws
  (quota), the clock \<open>Date.now()\<close> (taken as fixed during one operation), the lines
  written by \<open>console.warn\<close> and \<open>console.error\<close>, and the requests made.  The
  calls of \<open>onStatusChange\<close> and of \<open>console.log\<close> change nothing the operations read
  and are not recorded.
\<close>

record world =
  cache :: cache_item
  storage_full :: bool
  clock :: int
  console :: "(level \<times> string) list"
  calls :: "call list"

definition warn :: "string \<Rightarrow> world \<Rightarrow> world" where
  "warn msg w = w\<lparr>console := console w @ [(Warn, msg)]\<rparr>"

definition log_error :: "string \<Rightarrow> world \<Rightarrow> world" where
  "log_error msg w = w\<lparr>console := console w @ [(Err, msg)]\<rparr>"

definition request :: "call \<Rightarrow> world \<Rightarrow> world" where
  "request c w = w\<lparr>calls := calls w @ [c]\<rparr>"

record upload_result =
  up_success :: bool
  up_directoryCid :: "string option"
  up_error :: "string option"

text \<open>
  The relay behind the SDK: what each request answers.  A request that throws answers
  \<open>Inl\<close> (for \<open>pinRm\<close> and \<open>removeSystemHash\<close>: \<open>Some\<close>).  \<open>remove_fetch\<close> is the direct
  \<open>fetch\<close> of \<open>remove-system-hash\<close> in wallet mode, with \<open>response.ok\<close>.
\<close>

record relay =
  health :: bool
  pinLs :: "js_error + string list"
  pinRm :: "string \<Rightarrow> js_error option"
  saveSystemHash :: "metadata \<Rightarrow> js_error + bool"
  removeSystemHash :: "string \<Rightarrow> string \<Rightarrow> js_error option"
  remove_fetch :: "string \<Rightarrow> js_error + bool"
  getSystemHashesMap :: "js_error + (string \<rightharpoonup> metadata)"
  getUserUploads :: "string \<Rightarrow> js_error + string list option"
  uploadDirectoryBrowser :: "js_file list \<Rightarrow> js_error + upload_result"
  sdk_catFromDirectory :: "string \<Rightarrow> string \<Rightarrow> js_error + bytes"

definition cache_data :: "cache_item \<Rightarrow> (string \<rightharpoonup> metadata)" where
  "cache_data item = (case item of CacheDoc (Some d) _ \<Rightarrow> d | _ \<Rightarrow> Map.empty)"

section \<open>saveFileMetadata\<close>

text \<open>
  \<open>try { body } catch (error) { handler }\<close>: the body is given by the state it leaves
  and the error it throws, if any; the handler runs in that state.
\<close>

definition try_catch :: "world \<times> js_error option \<Rightarrow> (js_error \<Rightarrow> world \<Rightarrow> world) \<Rightarrow> world" where
  "try_catch body handler = (case body of (w, None) \<Rightarrow> w | (w, Some e) \<Rightarrow> handler e w)"

definition QuotaExceededError :: js_error where
  "QuotaExceededError = JsError ''QuotaExceededError'' ''The quota has been exceeded.'' None"

definition SyntaxError :: js_error where
  "SyntaxError = JsError ''SyntaxError'' ''Unexpected token in JSON'' None"

definition ReferenceError :: "string \<Rightarrow> js_error" where
  "ReferenceError msg = JsError ''ReferenceError'' msg None"

text \<open>
  The inner \<open>try\<close> of \<open>saveFileMetadata\<close>: the cached map (empty when the item is
  missing or unreadable) gets the whole record under its hash, with a new timestamp;
  \<open>setItem\<close> may throw.  Its \<open>catch\<close> warns.
\<close>

definition update_cache_body :: "metadata \<Rightarrow> world \<Rightarrow> world \<times> js_error option" where
  "update_cache_body metadata w =
     (if storage_full w then (w, Some QuotaExceededError)
      else (w\<lparr>cache := CacheDoc (Some ((cache_data (cache w))(md_hash metadata \<mapsto> metadata)))
                          (Some (clock w))\<rparr>, None))"

definition update_cache :: "metadata \<Rightarrow> world \<Rightarrow> world" where
  "update_cache metadata w =
     try_catch (update_cache_body metadata w) (\<lambda>error. warn ''Error updating metadata cache:'')"

text \<open>
  The outer \<open>try\<close> of \<open>saveFileMetadata\<close>: the relay is asked first; the cache is
  written in the branch \<open>if (result.success)\<close>.  The other branch reads \<open>response\<close>,
  which is not declared: it throws a \<open>ReferenceError\<close>.
\<close>

definition saveFileMetadata_body :: "relay \<Rightarrow> metadata \<Rightarrow> world \<Rightarrow> world \<times> js_error option" where
  "saveFileMetadata_body R metadata w =
     (let w1 = request (SaveSystemHash metadata) w in
      case saveSystemHash R metadata of
        Inl e \<Rightarrow> (w1, Some e)
      | Inr success \<Rightarrow>
          if success then (update_cache metadata w1, None)
          else (w1, Some (ReferenceError ''response is not defined'')))"

text \<open>\<open>saveFileMetadata\<close>: whatever the outer \<open>try\<close> throws is logged by its \<open>catch\<close>,
  and the function returns.\<close>

definition saveFileMetadata :: "relay \<Rightarrow> metadata \<Rightarrow> world \<Rightarrow> world \<times> (js_error + unit)" where
  "saveFileMetadata R metadata w =
     (try_catch (saveFileMetadata_body R metadata w)
        (\<lambda>error. log_error ''Error saving file metadata:''),
      Inr ())"

section \<open>deleteFile\<close>

text \<open>
  The block that removes a record from the local cache (in \<open>deleteFile\<close>, and after a
  directory was rebuilt): \<open>JSON.parse\<close> and \<open>setItem\<close> may throw; \<open>msg\<close> is what its
  \<open>catch\<close> warns.
\<close>

definition remove_from_cache_body :: "string \<Rightarrow> world \<Rightarrow> world \<times> js_error option" where
  "remove_from_cache_body cid w =
     (case cache w of
        NoItem \<Rightarrow> (w, None)
      | BadJson \<Rightarrow> (w, Some SyntaxError)
      | CacheDoc None ts \<Rightarrow> (w, None)
      | CacheDoc (Some d) ts \<Rightarrow>
          (case d cid of
             None \<Rightarrow> (w, None)
           | Some _ \<Rightarrow>
               if storage_full w then (w, Some QuotaExceededError)
               else (w\<lparr>cache := CacheDoc (Some (d(cid := None))) (Some (clock w))\<rparr>, None)))"

definition remove_from_cache :: "string \<Rightarrow> string \<Rightarrow> world \<Rightarrow> world" where
  "remove_from_cache msg cid w = try_catch (remove_from_cache_body cid w) (\<lambda>error. warn msg)"

text \<open>Step 1 of \<open>deleteFile\<close>: the pin, in admin mode only; its \<open>catch\<close> warns.\<close>

definition delete_pin :: "relay \<Rightarrow> core \<Rightarrow> string \<Rightarrow> world \<Rightarrow> world" where
  "delete_pin R c cid w =
     (if truthy (authToken c)
      then try_catch (request (PinRm cid) w, pinRm R cid) (\<lambda>error. warn ''Pin removal failed'')
      else w)"

text \<open>Step 2: the record of the system hash map, through the SDK (admin) or a direct
  \<open>fetch\<close> (wallet), where a response that is not ok is warned inside the \<open>try\<close>;
  \<open>owner\<close> is \<open>metadata.userAddress\<close>.\<close>

definition delete_remote_metadata_body ::
  "relay \<Rightarrow> core \<Rightarrow> string \<Rightarrow> string option \<Rightarrow> world \<Rightarrow> world \<times> js_error option" where
  "delete_remote_metadata_body R c cid owner w =
     (if truthy (authToken c) then
        (let user = or_default (js_or owner (Some (userAddress c))) ''drive-user''
         in (request (RemoveSystemHash cid user) w, removeSystemHash R cid user))
      else if walletSignature c \<noteq> [] \<and> userAddress c \<noteq> [] then
        (let w1 = request (RemoveFetch cid) w
         in case remove_fetch R cid of
              Inl e \<Rightarrow> (w1, Some e)
            | Inr ok \<Rightarrow> (if ok then w1 else warn ''Metadata removal returned'' w1, None))
      else (w, None))"

definition delete_remote_metadata :: "relay \<Rightarrow> core \<Rightarrow> string \<Rightarrow> string option \<Rightarrow> world \<Rightarrow> world" where
  "delete_remote_metadata R c cid owner w =
     try_catch (delete_remote_metadata_body R c cid owner w)
       (\<lambda>error. warn ''Error removing metadata:'')"

text \<open>The outer \<open>try\<close> of \<open>deleteFile\<close>: the three steps, each with its own \<open>catch\<close>.\<close>

definition deleteFile_body ::
  "relay \<Rightarrow> core \<Rightarrow> string \<Rightarrow> string option \<Rightarrow> world \<Rightarrow> world \<times> js_error option" where
  "deleteFile_body R c cid owner w =
     (remove_from_cache ''Error removing from cache:'' cid
        (delete_remote_metadata R c cid owner (delete_pin R c cid w)),
      None)"

definition deleteFile ::
  "relay \<Rightarrow> core \<Rightarrow> string \<Rightarrow> string option \<Rightarrow> world \<Rightarrow> world \<times> (js_error + bool)" where
  "deleteFile R c cid owner w =
     (if \<not> truthy (authToken c) \<and> walletSignature c = []
      then (w, Inl (Error ''Auth token or wallet connection is required.''))
      else
        (case deleteFile_body R c cid owner w of
           (w', None) \<Rightarrow> (w', Inr True)
         | (w', Some error) \<Rightarrow> (w', Inl (Error (''Delete failed: '' @ err_message error)))))"

section \<open>getFileList: the metadata of the listing\<close>

text \<open>\<open>checkRelayConnection\<close>: the health request, answered within 5 seconds or not.\<close>

definition checkRelayConnection :: "relay \<Rightarrow> world \<Rightarrow> world \<times> bool" where
  "checkRelayConnection R w =
     (if health R then (request Health w, True)
      else (log_error ''Relay connection check failed'' (request Health w), False))"

text \<open>What \<open>getFileList\<close> builds its list from: the uploads of the user (wallet mode),
  or the pins and the system hash map it holds when it returns (admin mode).\<close>

datatype listing =
  UserUploads "string list"
| PinsAndMetadata "string list" "string \<rightharpoonup> metadata"

text \<open>The cached map as the listing uses it: only from a document whose timestamp is
  set and less than 5 minutes old.\<close>

definition cached_systemHashMap :: "world \<Rightarrow> world \<times> (string \<rightharpoonup> metadata)" where
  "cached_systemHashMap w =
     (case cache w of
        NoItem \<Rightarrow> (w, Map.empty)
      | BadJson \<Rightarrow> (warn ''Error loading metadata cache:'' w, Map.empty)
      | CacheDoc d None \<Rightarrow> (w, Map.empty)
      | CacheDoc d (Some ts) \<Rightarrow>
          if ts \<noteq> 0 \<and> clock w - ts < 5 * 60 * 1000
          then (w, case d of None \<Rightarrow> Map.empty | Some m \<Rightarrow> m)
          else (w, Map.empty))"

text \<open>
  \<open>getFileList\<close> up to the pins and the map (the list itself is computed from these two
  without reading the cache or the relay again).  The background task is started in
  every admin-mode run: its request is made before \<open>getFileList\<close> goes on, and nothing
  waits for the answer.
\<close>

definition getFileList :: "relay \<Rightarrow> core \<Rightarrow> world \<Rightarrow> world \<times> (js_error + listing)" where
  "getFileList R c w =
     (if \<not> truthy (authToken c) \<and> userAddress c = []
      then (w, Inl (Error ''Please connect your wallet or set auth token in settings.''))
      else
        case checkRelayConnection R w of
          (w1, False) \<Rightarrow>
            (w1, Inl (Error ''Cannot connect to relay server. Please check the relay URL in settings.''))
        | (w1, True) \<Rightarrow>
            if \<not> truthy (authToken c) then
              (let w2 = request (GetUserUploads (userAddress c)) w1 in
               case getUserUploads R (userAddress c) of
                 Inl e \<Rightarrow> (log_error ''Error fetching user uploads:''
                              (log_error ''Error getting user uploads:'' w2),
                            Inl (Error (''Failed to fetch your uploads: '' @ err_message e)))
               | Inr None \<Rightarrow> (log_error ''Error fetching user uploads:''
                              (log_error ''Error getting user uploads:'' w2),
                            Inl (Error ''Failed to fetch your uploads: Failed to fetch user uploads''))
               | Inr (Some uploads) \<Rightarrow> (w2, Inr (UserUploads uploads)))
            else
              (let w2 = request PinLs w1 in
               case (case pinLs R of
                       Inl e \<Rightarrow>
                         if err_status e = Some 401
                         then Inl (Error ''Authentication failed. Please check your auth token in settings.'')
                         else Inr (warn ''Could not get pins, using metadata only:'' w2, [])
                     | Inr pins \<Rightarrow> Inr (w2, pins)) of
                 Inl e \<Rightarrow> (log_error ''Error getting file list:'' w2, Inl e)
               | Inr (w3, pins) \<Rightarrow>
                   (case cached_systemHashMap w3 of
                      (w4, systemHashMap) \<Rightarrow>
                        (request GetSystemHashesMap w4, Inr (PinsAndMetadata pins systemHashMap)))))"

text \<open>The rest of the background task, run when its request is answered or times out
  (in the state of that later moment): on an answer the cache item is replaced by the
  map of the server.\<close>

definition refresh_settles :: "relay \<Rightarrow> world \<Rightarrow> world" where
  "refresh_settles R w =
     (case getSystemHashesMap R of
        Inl e \<Rightarrow> if err_message e = ''Timeout'' then w
                  else warn ''Could not fetch system hashes map:'' w
      | Inr newSystemHashMap \<Rightarrow>
          if storage_full w then warn ''Error saving metadata cache:'' w
          else w\<lparr>cache := CacheDoc (Some newSystemHashMap) (Some (clock w))\<rparr>)"

section \<open>The navigation state of the application\<close>

text \<open>\<open>currentPath\<close> (the breadcrumb) and \<open>currentDirectoryCid\<close> (\<open>null\<close> at the root)
  of \<open>DriveApp\<close>, and what a directory rebuild returns.\<close>

record frame =
  frame_cid :: string
  frame_name :: string

record nav =
  currentPath :: "frame list"
  currentDirectoryCid :: "string option"

record synth_result =
  res_success :: bool
  res_directoryCid :: "string option"
  res_metadata :: "metadata option"

text \<open>\<open>this.currentPath[this.currentPath.length - 1].cid = cid\<close>, guarded by
  \<open>this.currentPath.length > 0\<close>.\<close>

definition set_last_cid :: "string \<Rightarrow> frame list \<Rightarrow> frame list" where
  "set_last_cid new path =
     (if length path > 0
      then path[length path - 1 := (path ! (length path - 1))\<lparr>frame_cid := new\<rparr>]
      else path)"

text \<open>The update of the navigation state in \<open>handleFileDelete\<close>, after
  \<open>removeFileFromDirectory\<close> returned \<open>result\<close> for the directory \<open>oldDirectoryCid\<close>.\<close>

definition handleFileDelete_repoint :: "nav \<Rightarrow> string \<Rightarrow> synth_result \<Rightarrow> nav" where
  "handleFileDelete_repoint n oldDirectoryCid result =
     (if res_success result \<and> truthy (res_directoryCid result) \<and>
         res_directoryCid result \<noteq> Some oldDirectoryCid
      then
        (if currentDirectoryCid n = Some oldDirectoryCid
         then n\<lparr>currentDirectoryCid := res_directoryCid result,
                currentPath := set_last_cid (or_default (res_directoryCid result) []) (currentPath n)\<rparr>
         else n)
      else n)"

text \<open>The update in \<open>handleUpload\<close>, after \<open>addFilesToDirectory\<close> returned;
  \<open>oldDirectoryCid\<close> is the \<open>currentDirectoryCid\<close> read before the call.\<close>

definition handleUpload_repoint :: "nav \<Rightarrow> string \<Rightarrow> synth_result \<Rightarrow> nav" where
  "handleUpload_repoint n oldDirectoryCid result =
     (if res_success result \<and> truthy (res_directoryCid result) \<and>
         res_directoryCid result \<noteq> Some oldDirectoryCid
      then n\<lparr>currentDirectoryCid := res_directoryCid result,
             currentPath := set_last_cid (or_default (res_directoryCid result) []) (currentPath n)\<rparr>
      else n)"

section \<open>Directories: uploadDirectory, createEmptyDirectory, catFromDirectory\<close>

text \<open>\<open>checkAuthentication\<close>: a user address is enough; otherwise the token is tried
  with a pin listing.\<close>

definition checkAuthentication :: "relay \<Rightarrow> core \<Rightarrow> world \<Rightarrow> world \<times> bool" where
  "checkAuthentication R c w =
     (if userAddress c \<noteq> [] then (w, True)
      else if \<not> truthy (authToken c) then (w, False)
      else
        (case pinLs R of
           Inr pins \<Rightarrow> (request PinLs w, True)
         | Inl e \<Rightarrow>
             if err_status e = Some 401 then (request PinLs w, False)
             else (log_error ''Authentication check failed:'' (request PinLs w), False)))"

text \<open>The two checks that \<open>uploadDirectory\<close> and \<open>createEmptyDirectory\<close> make before
  they prepare anything.\<close>

definition connect_and_authenticate :: "relay \<Rightarrow> core \<Rightarrow> world \<Rightarrow> world \<times> (js_error + unit)" where
  "connect_and_authenticate R c w =
     (case checkRelayConnection R w of
        (w1, False) \<Rightarrow>
          (w1, Inl (Error ''Cannot connect to relay server. Please check the relay URL in settings.''))
      | (w1, True) \<Rightarrow>
          (case checkAuthentication R c w1 of
             (w2, False) \<Rightarrow>
               (w2, Inl (Error ''Authentication failed. Please check your auth token in settings.''))
           | (w2, True) \<Rightarrow> (w2, Inr ())))"

record file_entry =
  fe_buffer :: bytes
  fe_filename :: string
  fe_path :: string
  fe_contentType :: string
  fe_isEncrypted :: bool
  fe_originalName :: string

text \<open>One turn of the loop over \<open>files\<close> in \<open>uploadDirectory\<close>: a file that cannot be
  encrypted is warned about and uploaded as it is.\<close>

definition prepare_entry :: "platform \<Rightarrow> core \<Rightarrow> bool \<Rightarrow> js_file \<Rightarrow> world \<Rightarrow> world \<times> file_entry" where
  "prepare_entry P c encrypt file w =
     (let relativePath = or_default (webkitRelativePath file) (file_name file);
          plain = \<lparr>fe_buffer = file_content file, fe_filename = file_name file,
                   fe_path = relativePath,
                   fe_contentType = or_default (Some (file_type file)) ''application/octet-stream'',
                   fe_isEncrypted = False, fe_originalName = file_name file\<rparr>
      in if encrypt then
           (case encryptFile P file (js_or (encryptionToken c) (authToken c)) of
              Inl e \<Rightarrow> (warn ''Warning: Failed to encrypt'' w, plain)
            | Inr fileToUpload \<Rightarrow>
                (w, plain\<lparr>fe_buffer := file_content fileToUpload,
                          fe_contentType :=
                            or_default (js_or (Some (file_type fileToUpload)) (Some (file_type file)))
                              ''application/octet-stream'',
                          fe_isEncrypted := True\<rparr>))
         else (w, plain))"

fun prepare_entries :: "platform \<Rightarrow> core \<Rightarrow> bool \<Rightarrow> js_file list \<Rightarrow> world \<Rightarrow> world \<times> file_entry list" where
  "prepare_entries P c encrypt [] w = (w, [])"
| "prepare_entries P c encrypt (file # files) w =
     (case prepare_entry P c encrypt file w of
        (w1, entry) \<Rightarrow>
          (case prepare_entries P c encrypt files w1 of
             (w2, entries) \<Rightarrow> (w2, entry # entries)))"

text \<open>The \<open>File\<close> object handed to the SDK for an entry: named by the final segment of
  the path (the path itself when that is empty), with \<open>webkitRelativePath\<close> the path.\<close>

definition file_object :: "file_entry \<Rightarrow> js_file" where
  "file_object e =
     \<lparr>file_content = fe_buffer e,
      file_type = blob_type_of (or_default (Some (fe_contentType e)) ''application/octet-stream''),
      file_name = or_default (Some (last_segment (fe_path e))) (fe_path e),
      webkitRelativePath = Some (fe_path e)\<rparr>"

definition entry_meta :: "file_entry \<Rightarrow> file_meta" where
  "entry_meta f =
     \<lparr>fm_path = Some (fe_path f), fm_name = Some (fe_originalName f),
      fm_originalName = Some (fe_originalName f), fm_size = length (fe_buffer f),
      fm_mimetype = Some (fe_contentType f), fm_isEncrypted = fe_isEncrypted f\<rparr>"

text \<open>\<open>folderName || (files[0].webkitRelativePath ? files[0].webkitRelativePath.split("/")[0]
  : "folder")\<close>\<close>

definition folderDisplayName :: "string option \<Rightarrow> js_file list \<Rightarrow> string" where
  "folderDisplayName folderName files =
     (if truthy folderName then or_default folderName []
      else (case files of
              [] \<Rightarrow> ''folder''
            | f # _ \<Rightarrow>
                if truthy (webkitRelativePath f)
                then hd (split_on CHR ''/'' (or_default (webkitRelativePath f) []))
                else ''folder''))"

text \<open>What both uploads do with the answer of the SDK: a result without success or
  without a cid is an error; otherwise the record is saved and returned.\<close>

definition finish_upload ::
  "relay \<Rightarrow> string \<Rightarrow> (string \<Rightarrow> metadata) \<Rightarrow> js_error + upload_result \<Rightarrow> world \<Rightarrow>
   world \<times> (js_error + synth_result)" where
  "finish_upload R fallback record answer w =
     (case answer of
        Inl e \<Rightarrow> (w, Inl e)
      | Inr result \<Rightarrow>
          if \<not> up_success result \<or> \<not> truthy (up_directoryCid result)
          then (w, Inl (Error (or_default (up_error result) fallback)))
          else
            (let cid = or_default (up_directoryCid result) [];
                 md = record cid
             in (fst (saveFileMetadata R md w),
                 Inr \<lparr>res_success = True, res_directoryCid = Some cid, res_metadata = Some md\<rparr>)))"

definition uploadDirectory ::
  "platform \<Rightarrow> relay \<Rightarrow> core \<Rightarrow> js_file list \<Rightarrow> bool \<Rightarrow> string option \<Rightarrow> world \<Rightarrow>
   world \<times> (js_error + synth_result)" where
  "uploadDirectory P R c files encrypt folderName w =
     (if \<not> truthy (authToken c) \<and> userAddress c = []
      then (w, Inl (Error ''Please connect your wallet or set auth token in settings.''))
      else if length files = 0
      then (w, Inl (Error ''At least one file is required for directory upload''))
      else
        (case connect_and_authenticate R c w of
           (w1, Inl e) \<Rightarrow> (w1, Inl e)
         | (w1, Inr _) \<Rightarrow>
             (case prepare_entries P c encrypt files w1 of
                (w2, fileEntries) \<Rightarrow>
                  (let fileObjects = map file_object fileEntries
                   in finish_upload R ''Directory upload failed - invalid response''
                        (\<lambda>cid. \<lparr>md_hash = cid,
                                md_displayName = Some (folderDisplayName folderName files),
                                md_fileName = Some (folderDisplayName folderName files),
                                md_fileSize = sum_list (map (\<lambda>f. length (file_content f)) files),
                                md_isEncrypted = list_ex fe_isEncrypted fileEntries,
                                md_isDirectory = True,
                                md_fileCount = length files,
                                md_files = Some (map entry_meta fileEntries),
                                md_uploadedAt = clock w2\<rparr>)
                        (uploadDirectoryBrowser R fileObjects)
                        (request (UploadDirectoryBrowser fileObjects) w2)))))"

text \<open>The marker member of an empty directory.\<close>

definition placeholderFile :: "string \<Rightarrow> js_file" where
  "placeholderFile folderName =
     \<lparr>file_content = [], file_type = ''application/x-empty'', file_name = ''.keep'',
      webkitRelativePath = Some (folderName @ ''/.keep'')\<rparr>"

definition createEmptyDirectory ::
  "relay \<Rightarrow> core \<Rightarrow> string \<Rightarrow> world \<Rightarrow> world \<times> (js_error + synth_result)" where
  "createEmptyDirectory R c folderName w =
     (if \<not> truthy (authToken c) \<and> userAddress c = []
      then (w, Inl (Error ''Please connect your wallet or set auth token in settings.''))
      else
        (case connect_and_authenticate R c w of
           (w1, Inl e) \<Rightarrow> (w1, Inl e)
         | (w1, Inr _) \<Rightarrow>
             finish_upload R ''Directory creation failed - invalid response''
               (\<lambda>cid. \<lparr>md_hash = cid, md_displayName = Some folderName,
                       md_fileName = Some folderName, md_fileSize = 0,
                       md_isEncrypted = False, md_isDirectory = True, md_fileCount = 0,
                       md_files = Some [], md_uploadedAt = clock w1\<rparr>)
               (uploadDirectoryBrowser R [placeholderFile folderName])
               (request (UploadDirectoryBrowser [placeholderFile folderName]) w1)))"

text \<open>\<open>pathParts.length > 1 ? pathParts[pathParts.length - 1] : filePath\<close>\<close>

definition normalize_path :: "string \<Rightarrow> string" where
  "normalize_path filePath =
     (if length (split_on CHR ''/'' filePath) > 1 then last (split_on CHR ''/'' filePath)
      else filePath)"

text \<open>\<open>catFromDirectory\<close>; an error of the SDK that carries a response is thrown again
  as \<open>Failed to cat file from directory: status - data\<close> (the data are left out).\<close>

definition catFromDirectory ::
  "relay \<Rightarrow> core \<Rightarrow> string \<Rightarrow> string \<Rightarrow> world \<Rightarrow> world \<times> (js_error + js_blob)" where
  "catFromDirectory R c directoryCid filePath w =
     (if \<not> truthy (authToken c)
      then (w, Inl (Error ''Auth token is required. Please set it in settings.''))
      else
        (let normalizedPath = normalize_path filePath;
             w1 = request (CatFromDirectory directoryCid normalizedPath) w
         in case sdk_catFromDirectory R directoryCid normalizedPath of
              Inl e \<Rightarrow>
                (log_error ''Error catting file from directory:'' w1,
                 Inl (case err_status e of
                        None \<Rightarrow> e
                      | Some st \<Rightarrow>
                          Error (''Failed to cat file from directory: '' @ string_of_nat st @ '' - '')))
            | Inr buffer \<Rightarrow> (w1, Inr \<lparr>blob_content = buffer, blob_type = []\<rparr>)))"

section \<open>removeFileFromDirectory\<close>

text \<open>\<open>fileMeta.path || fileMeta.name\<close>\<close>

definition member_path :: "file_meta \<Rightarrow> string option" where
  "member_path fileMeta = js_or (fm_path fileMeta) (fm_name fileMeta)"

text \<open>
  The \<open>filter\<close> over \<open>existingFilesMetadata\<close>: a member stays when the final segment of
  its path differs from the final segment of \<open>filePathToRemove\<close>.  A member with neither
  path nor name makes \<open>split\<close> throw a \<open>TypeError\<close>.
\<close>

fun filter_members :: "string \<Rightarrow> file_meta list \<Rightarrow> js_error + file_meta list" where
  "filter_members filePathToRemove [] = Inr []"
| "filter_members filePathToRemove (fileMeta # rest) =
     (case member_path fileMeta of
        None \<Rightarrow> Inl (TypeError ''Cannot read properties of undefined'')
      | Some filePath \<Rightarrow>
          (case filter_members filePathToRemove rest of
             Inl e \<Rightarrow> Inl e
           | Inr remaining \<Rightarrow>
               Inr (if last_segment filePath \<noteq> last_segment filePathToRemove
                    then fileMeta # remaining else remaining)))"

text \<open>\<open>fileMeta.path || fileMeta.name || fileMeta.originalName\<close>\<close>

definition relativePath_of :: "file_meta \<Rightarrow> string option" where
  "relativePath_of fileMeta = js_or (js_or (fm_path fileMeta) (fm_name fileMeta)) (fm_originalName fileMeta)"

text \<open>
  One turn of the loop over the remaining members: the content is fetched from the old
  directory; a member whose fetch throws or yields no bytes is warned about and skipped.
  The two warnings name the member: \<open>Failed to retrieve existing file ${fileMeta.path}:\<close>
  and \<open>Empty blob for file ${filePath}, skipping\<close>, with \<open>filePath\<close> the normalized
  path.  A \<open>File\<close> made with an undefined name is named \<open>undefined\<close>.
\<close>

definition failed_to_retrieve :: "file_meta \<Rightarrow> string" where
  "failed_to_retrieve fileMeta =
     ''Failed to retrieve existing file '' @
       (case fm_path fileMeta of None \<Rightarrow> ''undefined'' | Some s \<Rightarrow> s) @ '':''"

definition empty_blob :: "string \<Rightarrow> string" where
  "empty_blob filePath = ''Empty blob for file '' @ filePath @ '', skipping''"

definition fetch_member ::
  "relay \<Rightarrow> core \<Rightarrow> string \<Rightarrow> file_meta \<Rightarrow> world \<Rightarrow> world \<times> js_file option" where
  "fetch_member R c directoryCid fileMeta w =
     (case member_path fileMeta of
        None \<Rightarrow> (warn (failed_to_retrieve fileMeta) w, None)
      | Some p \<Rightarrow>
          (case catFromDirectory R c directoryCid (normalize_path p) w of
             (w1, Inl e) \<Rightarrow> (warn (failed_to_retrieve fileMeta) w1, None)
           | (w1, Inr blob) \<Rightarrow>
               if length (blob_content blob) = 0
               then (warn (empty_blob (normalize_path p)) w1, None)
               else
                 (w1, Some \<lparr>file_content = blob_content blob,
                            file_type = blob_type_of
                              (or_default (fm_mimetype fileMeta) ''application/octet-stream''),
                            file_name = (case relativePath_of fileMeta of
                                           None \<Rightarrow> ''undefined'' | Some s \<Rightarrow> s),
                            webkitRelativePath = relativePath_of fileMeta\<rparr>)))"

fun fetch_remaining ::
  "relay \<Rightarrow> core \<Rightarrow> string \<Rightarrow> file_meta list \<Rightarrow> world \<Rightarrow> world \<times> js_file list" where
  "fetch_remaining R c directoryCid [] w = (w, [])"
| "fetch_remaining R c directoryCid (fileMeta # rest) w =
     (case fetch_member R c directoryCid fileMeta w of
        (w1, existingFile) \<Rightarrow>
          (case fetch_remaining R c directoryCid rest w1 of
             (w2, allFiles) \<Rightarrow>
               (w2, (case existingFile of None \<Rightarrow> allFiles | Some f \<Rightarrow> f # allFiles))))"

text \<open>The name of the directory, from its cached record; \<open>folder\<close> otherwise.\<close>

definition cached_folderName :: "string \<Rightarrow> world \<Rightarrow> world \<times> string" where
  "cached_folderName directoryCid w =
     (case cache w of
        NoItem \<Rightarrow> (w, ''folder'')
      | BadJson \<Rightarrow> (warn ''Could not get directory name from metadata:'' w, ''folder'')
      | CacheDoc None ts \<Rightarrow> (w, ''folder'')
      | CacheDoc (Some d) ts \<Rightarrow>
          (case d directoryCid of
             None \<Rightarrow> (w, ''folder'')
           | Some dirMetadata \<Rightarrow>
               (w, or_default (js_or (md_displayName dirMetadata) (md_fileName dirMetadata))
                     ''folder'')))"

text \<open>After the new directory exists under another cid, the old one is given up: its
  pin, its remote record and its cached record; every failure is only warned.\<close>

definition cleanup_old :: "relay \<Rightarrow> string \<Rightarrow> synth_result \<Rightarrow> world \<Rightarrow> world" where
  "cleanup_old R directoryCid result w =
     (if res_success result \<and> truthy (res_directoryCid result) \<and> res_directoryCid result \<noteq> Some directoryCid
      then
        (let w1 = (case pinRm R directoryCid of
                     None \<Rightarrow> request (PinRm directoryCid) w
                   | Some e \<Rightarrow> warn ''Failed to remove old directory pin:''
                                 (request (PinRm directoryCid) w));
             w2 = (case removeSystemHash R directoryCid ''drive-user'' of
                     None \<Rightarrow> request (RemoveSystemHash directoryCid ''drive-user'') w1
                   | Some e \<Rightarrow> warn ''Error removing old directory metadata:''
                                 (request (RemoveSystemHash directoryCid ''drive-user'') w1))
         in remove_from_cache ''Error removing old directory from cache:'' directoryCid w2)
      else w)"

definition removeFileFromDirectory ::
  "platform \<Rightarrow> relay \<Rightarrow> core \<Rightarrow> string \<Rightarrow> string \<Rightarrow> file_meta list \<Rightarrow> world \<Rightarrow>
   world \<times> (js_error + synth_result)" where
  "removeFileFromDirectory P R c directoryCid filePathToRemove existingFilesMetadata w =
     (if \<not> truthy (authToken c)
      then (w, Inl (Error ''Auth token is required. Please set it in settings.''))
      else
        (case filter_members filePathToRemove existingFilesMetadata of
           Inl e \<Rightarrow> (w, Inl e)
         | Inr remainingFilesMetadata \<Rightarrow>
             if length remainingFilesMetadata = length existingFilesMetadata
             then (w, Inl (Error ''File not found in directory''))
             else
               (case fetch_remaining R c directoryCid remainingFilesMetadata w of
                  (w1, allFiles) \<Rightarrow>
                    if length allFiles = 0 \<and> length remainingFilesMetadata > 0
                    then (w1, Inl (Error ''Failed to retrieve remaining files from directory''))
                    else
                      (case cached_folderName directoryCid w1 of
                         (w2, folderName) \<Rightarrow>
                           if length allFiles = 0 then createEmptyDirectory R c folderName w2
                           else
                             (case uploadDirectory P R c allFiles True (Some folderName) w2 of
                                (w3, Inl e) \<Rightarrow> (w3, Inl e)
                              | (w3, Inr result) \<Rightarrow>
                                  (cleanup_old R directoryCid result w3, Inr result))))))"

section \<open>Contracts of the collaborators and concrete instances\<close>

text \<open>
  The contracts of the external collaborators: SEA decrypts what it encrypted under the
  same non-empty secret, and the data URL of a file starts with \<open>data:\<close> and fetches
  back to the file's bytes.
\<close>

definition sea_round_trip :: "platform \<Rightarrow> bool" where
  "sea_round_trip P \<longleftrightarrow>
     (\<forall>x k. k \<noteq> [] \<longrightarrow> (\<exists>c. sea_encrypt P x k = Inr c \<and> sea_decrypt P c k = Inr (Some x)))"

definition data_url_round_trip :: "platform \<Rightarrow> bool" where
  "data_url_round_trip P \<longleftrightarrow>
     (\<forall>f. \<exists>u b. readAsDataURL P f = Inr u \<and> startsWith u ''data:'' \<and>
        fetch_data_url P u = Inr b \<and> blob_content b = file_content f)"

text \<open>A concrete platform: a toy cipher and the plain \<open>data:,\<close> form of a data URL.\<close>

definition toy_platform :: platform where
  "toy_platform =
     \<lparr>readAsDataURL = (\<lambda>f. Inr (''data:,'' @ file_content f)),
      fetch_data_url = (\<lambda>u. if startsWith u ''data:,''
                             then Inr \<lparr>blob_content = drop 6 u, blob_type = []\<rparr>
                             else Inl (TypeError ''Failed to fetch'')),
      atob = (\<lambda>s. Inr s),
      sea_encrypt = (\<lambda>x k. Inr (''SEA{'' @ rev x)),
      sea_decrypt = (\<lambda>c k. if startsWith c ''SEA{'' then Inr (Some (rev (drop 4 c))) else Inr None),
      sea_present = (\<lambda>k. 3 \<le> k)\<rparr>"

text \<open>
  The responses that \<open>downloadFile\<close> reads with the stream reader: those of a download
  that is not encrypted, and those of an encrypted one that the relay already decrypted
  (a \<open>Content-Type\<close> that is set and is neither \<open>text/plain\<close> nor \<open>application/json\<close>).
\<close>

definition streamed_by_reader :: "download_meta \<Rightarrow> response \<Rightarrow> bool" where
  "streamed_by_reader metadata r =
     (\<not> isEncrypted metadata \<or>
      (or_default (resp_content_type r) [] \<noteq> [] \<and>
       \<not> includes_str (or_default (resp_content_type r) []) ''text/plain'' \<and>
       \<not> includes_str (or_default (resp_content_type r) []) ''application/json''))"

text \<open>An attempt of the retry loop fails when \<open>fetch\<close> rejects or resolves with a
  response that is not ok.\<close>

definition attempt_fails :: "(js_error + response) \<Rightarrow> bool" where
  "attempt_fails outcome = (case outcome of Inl _ \<Rightarrow> True | Inr r \<Rightarrow> \<not> resp_ok r)"

definition toy_core :: core where
  "toy_core = \<lparr>relayUrl = ''http://relay'', authToken = Some ''admin'', encryptionToken = None,
                userAddress = [], walletSignature = []\<rparr>"

text \<open>A core in wallet mode: no auth token, an address and a signature.\<close>

definition wallet_core :: core where
  "wallet_core = \<lparr>relayUrl = ''http://relay'', authToken = None, encryptionToken = None,
                   userAddress = ''0xabc'', walletSignature = ''0xsig''\<rparr>"

definition ok_response :: response where
  "ok_response = \<lparr>resp_status = 200, resp_text = Inr ''hello'',
                   resp_content_type = Some ''application/octet-stream'',
                   resp_content_length = Some 5, resp_chunks = [''he'', ''llo'']\<rparr>"

definition error_response :: response where
  "error_response = \<lparr>resp_status = 500, resp_text = Inr ''boom'',
                   resp_content_type = Some ''text/plain'',
                   resp_content_length = Some 4, resp_chunks = [''boom'']\<rparr>"

text \<open>A relay that answers every request; one that answers 500 once and then 200; and
  one that cannot be reached.\<close>

definition net_ok :: net where
  "net_ok =
     \<lparr>fetch = (\<lambda>k url. Inr ok_response),
      xhr = (\<lambda>url. \<lparr>xhr_progress = [(True, 3, 5), (False, 4, 0), (True, 5, 5)],
                     xhr_end = XhrLoad 200 ''OK''
                       \<lparr>blob_content = ''hello'', blob_type = ''application/octet-stream''\<rparr>\<rparr>),
      encodeURIComponent = (\<lambda>s. s)\<rparr>"

definition net_500_then_ok :: net where
  "net_500_then_ok =
     \<lparr>fetch = (\<lambda>k url. if k = 0 then Inr error_response else Inr ok_response),
      xhr = (\<lambda>url. \<lparr>xhr_progress = [], xhr_end = XhrError\<rparr>),
      encodeURIComponent = (\<lambda>s. s)\<rparr>"

definition net_down :: net where
  "net_down =
     \<lparr>fetch = (\<lambda>k url. Inl (TypeError ''Failed to fetch'')),
      xhr = (\<lambda>url. \<lparr>xhr_progress = [], xhr_end = XhrError\<rparr>),
      encodeURIComponent = (\<lambda>s. s)\<rparr>"

text \<open>The cache is fresh when it is a document whose timestamp is set and less than
  5 minutes (300000 ms) before the clock.\<close>

definition cache_fresh :: "world \<Rightarrow> bool" where
  "cache_fresh w =
     (case cache w of
        CacheDoc d (Some ts) \<Rightarrow> ts \<noteq> 0 \<and> clock w - ts < 300000
      | _ \<Rightarrow> False)"

definition toy_record :: metadata where
  "toy_record =
     \<lparr>md_hash = ''QmA'', md_displayName = Some ''docs'', md_fileName = Some ''docs'',
      md_fileSize = 30, md_isEncrypted = False, md_isDirectory = True, md_fileCount = 2,
      md_files = Some [], md_uploadedAt = 900000\<rparr>"

definition relay_error :: js_error where
  "relay_error = JsError ''AxiosError'' ''Request failed with status code 500'' (Some 500)"

text \<open>A relay on which every request fails, and one on which every request succeeds.\<close>

definition relay_down :: relay where
  "relay_down =
     \<lparr>health = False, pinLs = Inl relay_error, pinRm = (\<lambda>cid. Some relay_error),
      saveSystemHash = (\<lambda>m. Inl relay_error),
      removeSystemHash = (\<lambda>cid user. Some relay_error),
      remove_fetch = (\<lambda>cid. Inl relay_error),
      getSystemHashesMap = Inl relay_error,
      getUserUploads = (\<lambda>user. Inl relay_error),
      uploadDirectoryBrowser = (\<lambda>fs. Inl relay_error),
      sdk_catFromDirectory = (\<lambda>cid path. Inl relay_error)\<rparr>"

definition relay_ok :: relay where
  "relay_ok =
     \<lparr>health = True, pinLs = Inr [], pinRm = (\<lambda>cid. None),
      saveSystemHash = (\<lambda>m. Inr True),
      removeSystemHash = (\<lambda>cid user. None),
      remove_fetch = (\<lambda>cid. Inr True),
      getSystemHashesMap = Inr Map.empty,
      getUserUploads = (\<lambda>user. Inr (Some [])),
      uploadDirectoryBrowser =
        (\<lambda>fs. Inr \<lparr>up_success = True, up_directoryCid = Some ''QmNew'', up_error = None\<rparr>),
      sdk_catFromDirectory = (\<lambda>cid path. Inr ''data'')\<rparr>"

definition empty_world :: world where
  "empty_world = \<lparr>cache = NoItem, storage_full = False, clock = 1000000, console = [], calls = []\<rparr>"

text \<open>A cache written one second ago, and one written ten minutes ago.\<close>

definition fresh_world :: world where
  "fresh_world = empty_world\<lparr>cache := CacheDoc (Some [''QmA'' \<mapsto> toy_record]) (Some 999000)\<rparr>"

definition stale_world :: world where
  "stale_world = empty_world\<lparr>cache := CacheDoc (Some [''QmA'' \<mapsto> toy_record]) (Some 400000)\<rparr>"

text \<open>Navigation states: inside \<open>A\<close> with a breadcrumb that holds \<open>A\<close> and then \<open>Q\<close>;
  inside \<open>A\<close> with the breadcrumb \<open>A\<close>; and a rebuild of \<open>A\<close> that returned \<open>B\<close>.\<close>

definition nav_A_Q :: nav where
  "nav_A_Q = \<lparr>currentPath = [\<lparr>frame_cid = ''A'', frame_name = ''docs''\<rparr>,
                             \<lparr>frame_cid = ''Q'', frame_name = ''other''\<rparr>],
              currentDirectoryCid = Some ''A''\<rparr>"

definition nav_A :: nav where
  "nav_A = \<lparr>currentPath = [\<lparr>frame_cid = ''A'', frame_name = ''docs''\<rparr>],
            currentDirectoryCid = Some ''A''\<rparr>"

definition rebuilt_B :: synth_result where
  "rebuilt_B = \<lparr>res_success = True, res_directoryCid = Some ''B'', res_metadata = None\<rparr>"

section \<open>Notions for the properties of removeFileFromDirectory\<close>

text \<open>A member stays after the filter: the final segment of its path differs from the
  final segment of the path to remove.\<close>

definition keeps :: "string \<Rightarrow> file_meta \<Rightarrow> bool" where
  "keeps filePathToRemove fileMeta =
     (case member_path fileMeta of
        None \<Rightarrow> False
      | Some filePath \<Rightarrow> last_segment filePath \<noteq> last_segment filePathToRemove)"

text \<open>The content of a member can be fetched from the old directory, and has at least
  one byte.\<close>

definition fetched :: "relay \<Rightarrow> string \<Rightarrow> file_meta \<Rightarrow> bool" where
  "fetched R directoryCid fileMeta =
     (case member_path fileMeta of
        None \<Rightarrow> False
      | Some p \<Rightarrow>
          (case sdk_catFromDirectory R directoryCid (last_segment p) of
             Inl _ \<Rightarrow> False
           | Inr buffer \<Rightarrow> buffer \<noteq> []))"

text \<open>The lines that the loop of \<open>removeFileFromDirectory\<close> writes to the console for a
  member: none when the content was fetched with at least one byte; the error of
  \<open>catFromDirectory\<close> and the warning of the loop when the fetch throws; the warning about
  the empty blob when the content has no bytes.\<close>

definition skipped_log :: "relay \<Rightarrow> string \<Rightarrow> file_meta \<Rightarrow> (level \<times> string) list" where
  "skipped_log R directoryCid fileMeta =
     (case member_path fileMeta of
        None \<Rightarrow> [(Warn, failed_to_retrieve fileMeta)]
      | Some p \<Rightarrow>
          (case sdk_catFromDirectory R directoryCid (last_segment p) of
             Inl _ \<Rightarrow> [(Err, ''Error catting file from directory:''),
                       (Warn, failed_to_retrieve fileMeta)]
           | Inr buffer \<Rightarrow>
               if buffer = [] then [(Warn, empty_blob (last_segment p))] else []))"

text \<open>The \<open>File\<close> that the loop of \<open>removeFileFromDirectory\<close> makes of a fetched
  member.\<close>

definition existing_file :: "relay \<Rightarrow> string \<Rightarrow> file_meta \<Rightarrow> js_file" where
  "existing_file R directoryCid fileMeta =
     \<lparr>file_content = (case sdk_catFromDirectory R directoryCid
                              (last_segment (or_default (member_path fileMeta) [])) of
                        Inl _ \<Rightarrow> [] | Inr buffer \<Rightarrow> buffer),
      file_type = blob_type_of (or_default (fm_mimetype fileMeta) ''application/octet-stream''),
      file_name = (case relativePath_of fileMeta of None \<Rightarrow> ''undefined'' | Some s \<Rightarrow> s),
      webkitRelativePath = relativePath_of fileMeta\<rparr>"

text \<open>The paths of the members listed in the record of a returned snapshot.\<close>

definition snapshot_paths :: "synth_result \<Rightarrow> string option list" where
  "snapshot_paths r =
     (case res_metadata r of
        None \<Rightarrow> []
      | Some md \<Rightarrow> (case md_files md of None \<Rightarrow> [] | Some fs \<Rightarrow> map fm_path fs))"

text \<open>The path under which a fetched member is uploaded again.\<close>

definition new_path :: "file_meta \<Rightarrow> string" where
  "new_path fileMeta = (case relativePath_of fileMeta of None \<Rightarrow> ''undefined'' | Some s \<Rightarrow> s)"

text \<open>From \<open>w\<close> to \<open>w'\<close> requests were only added, and none of them uploads a directory
  without members.\<close>

definition no_empty_upload :: "world \<Rightarrow> world \<Rightarrow> bool" where
  "no_empty_upload w w' \<longleftrightarrow>
     take (length (calls w)) (calls w') = calls w \<and>
     UploadDirectoryBrowser [] \<notin> set (drop (length (calls w)) (calls w'))"

text \<open>A member record as \<open>uploadDirectory\<close> writes it, for a path and a size.\<close>

definition member :: "string \<Rightarrow> nat \<Rightarrow> file_meta" where
  "member path n =
     \<lparr>fm_path = Some path, fm_name = Some (last_segment path),
      fm_originalName = Some (last_segment path), fm_size = n,
      fm_mimetype = Some ''text/plain'', fm_isEncrypted = True\<rparr>"

text \<open>A relay that answers the health check, lists the pins and accepts every upload.\<close>

definition relay_accepts :: "relay \<Rightarrow> bool" where
  "relay_accepts R \<longleftrightarrow>
     health R \<and> (\<exists>pins. pinLs R = Inr pins) \<and>
     (\<forall>fs. \<exists>res. uploadDirectoryBrowser R fs = Inr res \<and> up_success res \<and>
        truthy (up_directoryCid res))"

text \<open>A directory with two members of the same file name in different folders.\<close>

definition members_x_x_y :: "file_meta list" where
  "members_x_x_y = [member ''a/x.txt'' 10, member ''b/x.txt'' 20, member ''c/y.txt'' 5]"

text \<open>The directory \<open>a.txt, b.txt, c.txt, d.txt\<close>, and a relay that is like \<open>relay_ok\<close>
  except that the fetch of \<open>a.txt\<close> fails and the fetch of \<open>c.txt\<close> yields no bytes.\<close>

definition members_a_b_c_d :: "file_meta list" where
  "members_a_b_c_d =
     [member ''a.txt'' 10, member ''b.txt'' 20, member ''c.txt'' 5, member ''d.txt'' 7]"

definition relay_flaky :: relay where
  "relay_flaky =
     relay_ok\<lparr>sdk_catFromDirectory :=
       (\<lambda>cid path. if path = ''a.txt'' then Inl relay_error
                   else if path = ''c.txt'' then Inr [] else Inr ''data'')\<rparr>"

section \<open>Properties of encryptFile and decryptBlob\<close>

lemma endsWith_suffix: "endsWith s t \<longleftrightarrow> suffix t s"
proof
  assume "endsWith s t"
  then have "s = take (length s - length t) s @ t"
    by (metis append_take_drop_id endsWith_def)
  then show "suffix t s"
    by (metis suffixI)
next
  assume "suffix t s"
  then obtain p where "s = p @ t"
    by (auto simp: suffix_def)
  then show "endsWith s t"
    by (simp add: endsWith_def)
qed

lemma endsWith_append_self: "endsWith (n @ t) t"
  by (simp add: endsWith_def)

lemma encryptedFileName_enc: "endsWith (encryptedFileName n) ''.enc''"
  unfolding encryptedFileName_def using endsWith_append_self [of n "''.enc''"] by simp

lemma encryptedFileName_keeps: "endsWith n ''.enc'' \<Longrightarrow> encryptedFileName n = n"
  by (simp add: encryptedFileName_def)

lemma encryptedFileName_idem: "encryptedFileName (encryptedFileName n) = encryptedFileName n"
  by (rule encryptedFileName_keeps) (rule encryptedFileName_enc)

lemma encryptedFileName_double:
  assumes "endsWith (encryptedFileName n) ''.enc.enc''"
  shows "endsWith n ''.enc.enc''"
proof (cases "endsWith n ''.enc''")
  case True
  with assms show ?thesis by (simp add: encryptedFileName_def)
next
  case False
  with assms have "suffix (''.enc'' @ ''.enc'') (n @ ''.enc'')"
    by (simp add: encryptedFileName_def endsWith_suffix)
  then have "suffix ''.enc'' n"
    by (simp only: same_suffix_suffix)
  with False show ?thesis by (simp add: endsWith_suffix)
qed

lemma encryptFile_name:
  "encryptFile P f tok = Inr g \<Longrightarrow> file_name g = encryptedFileName (file_name f)"
  by (auto simp: encryptFile_def rethrow_def split: option.splits if_splits sum.splits)

lemma checkSEA_found:
  "a \<le> k \<Longrightarrow> k \<le> maxAttempts \<Longrightarrow> present k \<Longrightarrow> checkSEA present a = Inr ()"
proof (induction present a rule: checkSEA.induct)
  case (1 present attempts)
  show ?case
  proof (cases "present attempts")
    case True
    then show ?thesis by (simp add: checkSEA.simps)
  next
    case False
    with "1.prems" have lt: "attempts < k"
      by (cases "attempts = k") auto
    with "1.prems" have "attempts < maxAttempts" by simp
    moreover from lt have "Suc attempts \<le> k" by simp
    ultimately show ?thesis
      using False "1.IH" "1.prems" by (subst checkSEA.simps) simp
  qed
qed

lemma loadSEA_found: "k \<le> maxAttempts \<Longrightarrow> sea_present P k \<Longrightarrow> loadSEA P = Inr ()"
  using checkSEA_found [of 0 k "sea_present P"] by (simp add: loadSEA_def)

lemma toy_platform_fields:
  "readAsDataURL toy_platform f = Inr (''data:,'' @ file_content f)"
  "sea_encrypt toy_platform x k = Inr (''SEA{'' @ rev x)"
  by (simp_all add: toy_platform_def)

lemma toy_platform_sea: "sea_round_trip toy_platform"
  by (simp add: sea_round_trip_def toy_platform_def startsWith_def)

lemma toy_platform_data_url: "data_url_round_trip toy_platform"
  by (simp add: data_url_round_trip_def toy_platform_def startsWith_def)

lemma toy_platform_present: "3 \<le> maxAttempts \<and> sea_present toy_platform 3"
  by (simp add: toy_platform_def maxAttempts_def)

text \<open>
  C9: the file that \<open>encryptFile\<close> returns has a name ending in \<open>.enc\<close>; a name that
  already ends in \<open>.enc\<close> is kept as it is; encrypting the result again (with any
  platform and token) keeps the name; and the result's name ends in \<open>.enc.enc\<close> only
  when the input's name did.
\<close>

theorem encryptFile_name_enc_idempotent:
  assumes "encryptFile P f tok = Inr g"
  shows "endsWith (file_name g) ''.enc'' \<and>
         (endsWith (file_name f) ''.enc'' \<longrightarrow> file_name g = file_name f) \<and>
         (\<forall>P' tok' g'. encryptFile P' g tok' = Inr g' \<longrightarrow> file_name g' = file_name g) \<and>
         (endsWith (file_name g) ''.enc.enc'' \<longrightarrow> endsWith (file_name f) ''.enc.enc'')"
proof -
  have n: "file_name g = encryptedFileName (file_name f)"
    using assms by (rule encryptFile_name)
  have "endsWith (file_name g) ''.enc''"
    by (simp only: n encryptedFileName_enc)
  moreover have "endsWith (file_name f) ''.enc'' \<longrightarrow> file_name g = file_name f"
    by (simp add: n encryptedFileName_keeps)
  moreover have "\<forall>P' tok' g'. encryptFile P' g tok' = Inr g' \<longrightarrow> file_name g' = file_name g"
    by (auto dest!: encryptFile_name simp: n encryptedFileName_idem)
  moreover have "endsWith (file_name g) ''.enc.enc'' \<longrightarrow> endsWith (file_name f) ''.enc.enc''"
    using encryptedFileName_double [of "file_name f"] by (simp add: n)
  ultimately show ?thesis by blast
qed

theorem encryptFile_name_enc_idempotent_witness:
  "encryptFile toy_platform
     \<lparr>file_content = ''hello'', file_type = ''text/plain'', file_name = ''a.txt'',
      webkitRelativePath = None\<rparr> (Some ''secret'')
   = Inr \<lparr>file_content = ''SEA{olleh,:atad'', file_type = ''text/plain'', file_name = ''a.txt.enc'',
      webkitRelativePath = None\<rparr> \<and>
   endsWith ''a.txt.enc'' ''.enc'' \<and>
   encryptFile toy_platform
     \<lparr>file_content = ''SEA{olleh,:atad'', file_type = ''text/plain'', file_name = ''a.txt.enc'',
      webkitRelativePath = None\<rparr> (Some ''secret'')
   = Inr \<lparr>file_content = ''SEA{data:,hello{AES,:atad'', file_type = ''text/plain'',
      file_name = ''a.txt.enc'', webkitRelativePath = None\<rparr>"
proof -
  have l: "loadSEA toy_platform = Inr ()"
    using toy_platform_present by (auto intro: loadSEA_found)
  have e: "encryptFile toy_platform
     \<lparr>file_content = ''hello'', file_type = ''text/plain'', file_name = ''a.txt'',
      webkitRelativePath = None\<rparr> (Some ''secret'')
   = Inr \<lparr>file_content = ''SEA{olleh,:atad'', file_type = ''text/plain'', file_name = ''a.txt.enc'',
      webkitRelativePath = None\<rparr>"
    by (simp add: encryptFile_def l rethrow_def encryptedFileName_def endsWith_def
        toy_platform_fields)
  have e2: "encryptFile toy_platform
     \<lparr>file_content = ''SEA{olleh,:atad'', file_type = ''text/plain'', file_name = ''a.txt.enc'',
      webkitRelativePath = None\<rparr> (Some ''secret'')
   = Inr \<lparr>file_content = ''SEA{data:,hello{AES,:atad'', file_type = ''text/plain'',
      file_name = ''a.txt.enc'', webkitRelativePath = None\<rparr>"
    by (simp add: encryptFile_def l rethrow_def encryptedFileName_def endsWith_def
        toy_platform_fields)
  from encryptFile_name_enc_idempotent [OF e] e e2 show ?thesis by simp
qed

text \<open>
  C7: with a non-empty secret, SEA loaded within the polling window, and collaborators
  that keep their contracts, \<open>decryptBlob\<close> applied to the file that \<open>encryptFile\<close>
  produced returns a blob with exactly the bytes of the original file.
\<close>

theorem decryptBlob_encryptFile_round_trip:
  assumes s: "s \<noteq> []"
    and sea: "sea_round_trip P"
    and url: "data_url_round_trip P"
    and k: "k \<le> maxAttempts" "sea_present P k"
  shows "\<exists>g b. encryptFile P f (Some s) = Inr g \<and>
           decryptBlob P (blob_of_file g) (Some s) = Inr b \<and>
           blob_content b = file_content f"
proof -
  have l: "loadSEA P = Inr ()"
    using k by (rule loadSEA_found)
  from url obtain u b where u: "readAsDataURL P f = Inr u" "startsWith u ''data:''"
    and b: "fetch_data_url P u = Inr b" "blob_content b = file_content f"
    unfolding data_url_round_trip_def by blast
  from sea s obtain c where c: "sea_encrypt P u s = Inr c" "sea_decrypt P c s = Inr (Some u)"
    unfolding sea_round_trip_def by blast
  from u(2) have ne: "u \<noteq> []"
    by (auto simp: startsWith_def)
  let ?g = "\<lparr>file_content = c, file_type = ''text/plain'',
             file_name = encryptedFileName (file_name f), webkitRelativePath = None\<rparr>"
  have "encryptFile P f (Some s) = Inr ?g"
    using s l u(1) c(1) by (simp add: encryptFile_def rethrow_def)
  moreover have "decryptBlob P (blob_of_file ?g) (Some s) = Inr b"
    using s l c(2) ne u(2) b(1) by (simp add: decryptBlob_def rethrow_def blob_of_file_def)
  ultimately show ?thesis using b(2) by blast
qed

theorem decryptBlob_encryptFile_round_trip_witness:
  "\<exists>g b. encryptFile toy_platform
       \<lparr>file_content = ''hello'', file_type = ''text/plain'', file_name = ''a.txt'',
        webkitRelativePath = None\<rparr> (Some ''secret'') = Inr g \<and>
     decryptBlob toy_platform (blob_of_file g) (Some ''secret'') = Inr b \<and>
     blob_content b = ''hello''"
  using decryptBlob_encryptFile_round_trip [of "''secret''" toy_platform 3
      "\<lparr>file_content = ''hello'', file_type = ''text/plain'', file_name = ''a.txt'',
        webkitRelativePath = None\<rparr>"]
    toy_platform_sea toy_platform_data_url toy_platform_present
  by simp

section \<open>Properties of downloadFile\<close>

lemma loop_turn_fails_early:
  "attempt_fails outcome \<Longrightarrow> attempt < maxRetries - 1 \<Longrightarrow>
   loop_turn outcome attempt = Retry (1000 * (attempt + 1))"
  by (auto simp: attempt_fails_def loop_turn_def inner_catch_def outer_catch_def maxRetries_def
      split: sum.splits)

lemma loop_turn_fails_last:
  "attempt_fails outcome \<Longrightarrow> \<exists>e. loop_turn outcome (maxRetries - 1) = Throw e"
  by (auto simp: attempt_fails_def loop_turn_def inner_catch_def outer_catch_def maxRetries_def
      split: sum.splits)

lemma loop_turn_rejected_last:
  "err_name e \<noteq> ''AbortError'' \<Longrightarrow> loop_turn (Inl e) (maxRetries - 1) = Throw e"
  by (auto simp: loop_turn_def inner_catch_def outer_catch_def maxRetries_def)

lemma fetch_loop_retry:
  assumes "attempt < maxRetries" "loop_turn (f attempt url) attempt = Retry ms"
  shows "fetch_loop f url attempt r =
     (Fetch url # Wait ms #
        fst (fetch_loop f url (Suc attempt)
               (case f attempt url of Inl _ \<Rightarrow> r | Inr x \<Rightarrow> Some x)),
      snd (fetch_loop f url (Suc attempt)
             (case f attempt url of Inl _ \<Rightarrow> r | Inr x \<Rightarrow> Some x)))"
  using assms by (subst fetch_loop.simps) (simp add: Let_def split: prod.splits)

lemma fetch_loop_throw:
  assumes "attempt < maxRetries" "loop_turn (f attempt url) attempt = Throw e"
  shows "fetch_loop f url attempt r = ([Fetch url], Inl e)"
  using assms by (subst fetch_loop.simps) (simp add: Let_def)

lemma fetch_loop_break:
  assumes "attempt < maxRetries" "loop_turn (f attempt url) attempt = Break x"
  shows "fetch_loop f url attempt r = ([Fetch url], Inr (Some x))"
  using assms by (subst fetch_loop.simps) (simp add: Let_def)

lemma fetch_loop_all_fail:
  assumes "\<forall>k<maxRetries. attempt_fails (f k url)"
  shows "\<exists>e. loop_turn (f 2 url) 2 = Throw e \<and>
           fetch_loop f url 0 None =
             ([Fetch url, Wait 1000, Fetch url, Wait 2000, Fetch url], Inl e)"
proof -
  from assms have a: "attempt_fails (f 0 url)" "attempt_fails (f (Suc 0) url)"
      "attempt_fails (f (Suc (Suc 0)) url)"
    by (simp_all add: maxRetries_def)
  have t0: "loop_turn (f 0 url) 0 = Retry 1000"
    using loop_turn_fails_early [OF a(1), of 0] by (simp add: maxRetries_def)
  have t1: "loop_turn (f (Suc 0) url) (Suc 0) = Retry 2000"
    using loop_turn_fails_early [OF a(2), of "Suc 0"] by (simp add: maxRetries_def)
  obtain e where t2: "loop_turn (f (Suc (Suc 0)) url) (Suc (Suc 0)) = Throw e"
    using loop_turn_fails_last [OF a(3)] by (auto simp: maxRetries_def numeral_3_eq_3)
  have l2: "fetch_loop f url (Suc (Suc 0)) r = ([Fetch url], Inl e)" for r
    using t2 by (intro fetch_loop_throw) (simp_all add: maxRetries_def)
  have l1: "fetch_loop f url (Suc 0) r = ([Fetch url, Wait 2000, Fetch url], Inl e)" for r
    using fetch_loop_retry [of "Suc 0" f url 2000 r] t1 by (simp add: maxRetries_def l2)
  have l0: "fetch_loop f url 0 r = ([Fetch url, Wait 1000, Fetch url, Wait 2000, Fetch url], Inl e)" for r
    using fetch_loop_retry [of 0 f url 1000 r] t0 by (simp add: maxRetries_def l1)
  from t2 have "loop_turn (f 2 url) 2 = Throw e"
    by (simp add: numeral_2_eq_2)
  with l0 show ?thesis by blast
qed


lemma net_500_then_ok_loop:
  "fetch_loop (fetch net_500_then_ok) url 0 None =
     ([Fetch url, Wait 1000, Fetch url], Inr (Some ok_response))"
proof -
  have f0: "fetch net_500_then_ok 0 url = Inr error_response"
    and f1: "fetch net_500_then_ok (Suc 0) url = Inr ok_response"
    by (simp_all add: net_500_then_ok_def)
  have t0: "loop_turn (fetch net_500_then_ok 0 url) 0 = Retry 1000"
    using loop_turn_fails_early [of "fetch net_500_then_ok 0 url" 0]
    by (simp add: f0 attempt_fails_def resp_ok_def error_response_def maxRetries_def)
  have t1: "loop_turn (fetch net_500_then_ok (Suc 0) url) (Suc 0) = Break ok_response"
    by (simp add: f1 loop_turn_def resp_ok_def ok_response_def)
  have l1: "fetch_loop (fetch net_500_then_ok) url (Suc 0) r = ([Fetch url], Inr (Some ok_response))" for r
    using t1 by (intro fetch_loop_break) (simp_all add: maxRetries_def)
  show ?thesis
    using fetch_loop_retry [of 0 "fetch net_500_then_ok" url 1000 None] t0
    by (simp add: maxRetries_def l1)
qed

lemma blob_type_octet_stream:
  "blob_type_of ''application/octet-stream'' = ''application/octet-stream''"
  by (simp add: blob_type_of_def printable_ascii_def ascii_lower_def)

lemma ok_response_read:
  "read_response P c \<lparr>isEncrypted = False, meta_size = n\<rparr> ok_response =
     ([Progress 2 5, Progress 5 5],
      Inr \<lparr>blob_content = ''hello'', blob_type = ''application/octet-stream''\<rparr>)"
  by (simp add: read_response_def ok_response_def or_default_def Let_def blob_type_octet_stream)

lemma fetch_loop_no_xhr: "Xhr u \<notin> set (fst (fetch_loop f url attempt r))"
proof (induction f url attempt r rule: fetch_loop.induct)
  case (1 f url attempt response)
  show ?case
  proof (cases "attempt < maxRetries")
    case False
    then show ?thesis by (subst fetch_loop.simps) simp
  next
    case True
    show ?thesis
    proof (cases "loop_turn (f attempt url) attempt")
      case (Break x)
      with True show ?thesis by (simp add: fetch_loop_break)
    next
      case (Throw e)
      with True show ?thesis by (simp add: fetch_loop_throw)
    next
      case (Retry ms)
      with True "1.IH" [OF True refl refl Retry] show ?thesis
        by (simp add: fetch_loop_retry)
    qed
  qed
qed

lemma fetch_loop_starts: "\<exists>evs. fst (fetch_loop f url 0 r) = Fetch url # evs"
proof (cases "loop_turn (f 0 url) 0")
  case (Break x)
  then show ?thesis by (simp add: fetch_loop_break maxRetries_def)
next
  case (Throw e)
  then show ?thesis by (simp add: fetch_loop_throw maxRetries_def)
next
  case (Retry ms)
  then show ?thesis by (simp add: fetch_loop_retry maxRetries_def)
qed

lemma read_chunks_no_xhr: "Xhr u \<notin> set (read_chunks cl n cs)"
  by (induction cs arbitrary: n) (auto split: option.splits)

lemma read_response_no_xhr: "Xhr u \<notin> set (fst (read_response P c m r))"
  by (auto simp: read_response_def Let_def read_chunks_no_xhr split: sum.splits)

lemma downloadFile_small_events:
  assumes "\<not> isLargeFile metadata"
    and "isEncrypted metadata \<longrightarrow> truthy (encryptionToken c) \<or> truthy (authToken c)"
  shows "\<exists>evs. fst (downloadFile P N c hash metadata) =
           Fetch (download_url N c hash metadata) # evs \<and> (\<forall>u. Xhr u \<notin> set evs)"
proof -
  let ?url = "download_url N c hash metadata"
  obtain evs0 where e0: "fst (fetch_loop (fetch N) ?url 0 None) = Fetch ?url # evs0"
    using fetch_loop_starts by blast
  have nx: "\<forall>u. Xhr u \<notin> set evs0"
    using fetch_loop_no_xhr [of _ "fetch N" ?url 0 None] by (simp add: e0)
  obtain res where fl: "fetch_loop (fetch N) ?url 0 None = (Fetch ?url # evs0, res)"
    using e0 by (cases "fetch_loop (fetch N) ?url 0 None") simp
  show ?thesis
    using assms nx read_response_no_xhr [of _ P c metadata]
    by (auto simp: downloadFile_def Let_def fl split: sum.splits prod.splits)
       (metis fst_conv)+
qed


lemma read_chunks_None: "read_chunks None n cs = []"
  by (induction cs arbitrary: n) auto

lemma read_chunks_Some:
  "read_chunks (Some t) n cs =
     map (\<lambda>k. Progress (n + length (concat (take (Suc k) cs))) t) [0..<length cs]"
proof (induction cs arbitrary: n)
  case Nil
  show ?case by simp
next
  case (Cons c cs)
  have "[0..<length (c # cs)] = 0 # map Suc [0..<length cs]"
    by (simp add: upt_conv_Cons map_Suc_upt del: upt_Suc)
  then show ?case
    by (simp add: Cons.IH comp_def add.assoc del: upt_Suc)
qed

lemma downloadFile_first_ok:
  assumes small: "\<not> isLargeFile metadata" and stream: "streamed_by_reader metadata r"
    and tok: "isEncrypted metadata \<longrightarrow> truthy (encryptionToken c) \<or> truthy (authToken c)"
    and r: "fetch N 0 (download_url N c hash metadata) = Inr r" "resp_ok r"
  shows "downloadFile P N c hash metadata =
           (Fetch (download_url N c hash metadata) #
              read_chunks (resp_content_length r) 0 (resp_chunks r),
            not_empty \<lparr>blob_content = concat (resp_chunks r),
                       blob_type = blob_type_of
                         (or_default (resp_content_type r) ''application/octet-stream'')\<rparr>)"
proof -
  let ?url = "download_url N c hash metadata"
  have "loop_turn (fetch N 0 ?url) 0 = Break r"
    using r by (simp add: loop_turn_def)
  then have l: "fetch_loop (fetch N) ?url 0 None = ([Fetch ?url], Inr (Some r))"
    by (intro fetch_loop_break) (simp_all add: maxRetries_def)
  have rr: "read_response P c metadata r =
      (read_chunks (resp_content_length r) 0 (resp_chunks r),
       Inr \<lparr>blob_content = concat (resp_chunks r),
            blob_type = blob_type_of
              (or_default (resp_content_type r) ''application/octet-stream'')\<rparr>)"
    using stream
    by (auto simp: read_response_def streamed_by_reader_def Let_def or_default_def
        split: option.splits)
  show ?thesis
    using small tok r(2)
    by (auto simp: downloadFile_def Let_def after_loop_def l rr)
qed

lemma toy_url:
  "download_url N toy_core ''Qm'' \<lparr>isEncrypted = False, meta_size = n\<rparr>
     = ''http://relay/api/v1/ipfs/cat/Qm''"
  by (simp add: download_url_def toy_core_def)

lemma download_500_then_ok:
  "downloadFile toy_platform net_500_then_ok toy_core ''Qm''
       \<lparr>isEncrypted = False, meta_size = Some n\<rparr> =
     (if 5 * 1024 * 1024 < n
      then ([Xhr ''http://relay/api/v1/ipfs/cat/Qm''], Inl (Error ''Network error during download''))
      else ([Fetch ''http://relay/api/v1/ipfs/cat/Qm'', Wait 1000,
             Fetch ''http://relay/api/v1/ipfs/cat/Qm'', Progress 2 5, Progress 5 5],
            Inr \<lparr>blob_content = ''hello'', blob_type = ''application/octet-stream''\<rparr>))"
proof -
  have a: "after_loop (Some ok_response) = Inr ok_response"
    by (simp add: after_loop_def resp_ok_def ok_response_def)
  have x: "downloadWithXHR net_500_then_ok url = ([Xhr url], Inl (Error ''Network error during download''))"
    for url
    by (simp add: downloadWithXHR_def net_500_then_ok_def)
  show ?thesis
    by (simp add: downloadFile_def isLargeFile_def fileSize_def toy_url net_500_then_ok_loop a
        ok_response_read not_empty_def Let_def x)
qed

text \<open>
  C3, as stated, does not hold: a response that completed with status 500 is retried
  (after the 1000 ms wait the second attempt is made and its response is used), and a
  download with a declared size above 5 MB makes a single \<open>XMLHttpRequest\<close> and fails on
  its network error without another attempt.
\<close>

theorem downloadFile_retries_non_2xx:
  "attempt_fails (Inr error_response) \<and>
   downloadFile toy_platform net_500_then_ok toy_core ''Qm''
       \<lparr>isEncrypted = False, meta_size = Some 10\<rparr> =
     ([Fetch ''http://relay/api/v1/ipfs/cat/Qm'', Wait 1000,
       Fetch ''http://relay/api/v1/ipfs/cat/Qm'', Progress 2 5, Progress 5 5],
      Inr \<lparr>blob_content = ''hello'', blob_type = ''application/octet-stream''\<rparr>) \<and>
   downloadFile toy_platform net_500_then_ok toy_core ''Qm''
       \<lparr>isEncrypted = False, meta_size = Some (6 * 1024 * 1024)\<rparr> =
     ([Xhr ''http://relay/api/v1/ipfs/cat/Qm''], Inl (Error ''Network error during download''))"
  by (simp add: download_500_then_ok attempt_fails_def resp_ok_def error_response_def)

text \<open>
  C3, amended: a download on the \<open>fetch\<close> path (declared size at most 5 MB) whose three
  attempts all fail, be it by a rejected \<open>fetch\<close>, a timeout or a completed response
  that is not 2xx, makes exactly three attempts, waits 1000 ms after the first and 2000 ms
  after the second, and then fails with the error of the third attempt: the rejection
  itself, the timeout error, or \<open>Download failed: status text\<close>.
\<close>

theorem downloadFile_retries_every_failure:
  assumes small: "\<not> isLargeFile metadata"
    and tok: "isEncrypted metadata \<longrightarrow> truthy (encryptionToken c) \<or> truthy (authToken c)"
    and fails: "\<forall>k<maxRetries. attempt_fails (fetch N k (download_url N c hash metadata))"
  shows "fst (downloadFile P N c hash metadata) =
           [Fetch (download_url N c hash metadata), Wait 1000,
            Fetch (download_url N c hash metadata), Wait 2000,
            Fetch (download_url N c hash metadata)] \<and>
         (\<exists>e. snd (downloadFile P N c hash metadata) = Inl e) \<and>
         (\<forall>e. fetch N 2 (download_url N c hash metadata) = Inl e \<and> err_name e \<noteq> ''AbortError'' \<longrightarrow>
              snd (downloadFile P N c hash metadata) = Inl e) \<and>
         (\<forall>e. fetch N 2 (download_url N c hash metadata) = Inl e \<and> err_name e = ''AbortError'' \<longrightarrow>
              snd (downloadFile P N c hash metadata) =
                Inl (Error ''Download timeout - file too large or connection too slow'')) \<and>
         (\<forall>r. fetch N 2 (download_url N c hash metadata) = Inr r \<longrightarrow>
              snd (downloadFile P N c hash metadata) =
                Inl (Error (''Download failed: '' @ string_of_nat (resp_status r) @ '' '' @
                            text_or_empty r)))"
proof -
  let ?url = "download_url N c hash metadata"
  from fetch_loop_all_fail [of "fetch N" ?url] fails obtain e where
    t: "loop_turn (fetch N 2 ?url) 2 = Throw e" and
    l: "fetch_loop (fetch N) ?url 0 None =
          ([Fetch ?url, Wait 1000, Fetch ?url, Wait 2000, Fetch ?url], Inl e)"
    by blast
  have d: "downloadFile P N c hash metadata =
          ([Fetch ?url, Wait 1000, Fetch ?url, Wait 2000, Fetch ?url], Inl e)"
    using small tok by (auto simp: downloadFile_def Let_def l)
  have f2: "attempt_fails (fetch N 2 ?url)"
    using fails by (simp add: maxRetries_def)
  have "\<forall>e'. fetch N 2 ?url = Inl e' \<and> err_name e' \<noteq> ''AbortError'' \<longrightarrow> e = e'"
    using t by (auto simp: loop_turn_def inner_catch_def outer_catch_def maxRetries_def)
  moreover have "\<forall>e'. fetch N 2 ?url = Inl e' \<and> err_name e' = ''AbortError'' \<longrightarrow>
      e = Error ''Download timeout - file too large or connection too slow''"
    using t by (auto simp: loop_turn_def inner_catch_def outer_catch_def maxRetries_def)
  moreover have "\<forall>r. fetch N 2 ?url = Inr r \<longrightarrow>
      e = Error (''Download failed: '' @ string_of_nat (resp_status r) @ '' '' @ text_or_empty r)"
    using t f2
    by (auto simp: loop_turn_def inner_catch_def outer_catch_def maxRetries_def attempt_fails_def
        Error_def split: if_splits)
  ultimately show ?thesis
    by (simp add: d)
qed

theorem downloadFile_retries_every_failure_witness:
  "fst (downloadFile toy_platform net_down toy_core ''Qm'' \<lparr>isEncrypted = False, meta_size = Some 10\<rparr>)
     = [Fetch ''http://relay/api/v1/ipfs/cat/Qm'', Wait 1000,
        Fetch ''http://relay/api/v1/ipfs/cat/Qm'', Wait 2000,
        Fetch ''http://relay/api/v1/ipfs/cat/Qm''] \<and>
   snd (downloadFile toy_platform net_down toy_core ''Qm'' \<lparr>isEncrypted = False, meta_size = Some 10\<rparr>)
     = Inl (TypeError ''Failed to fetch'')"
proof -
  have f: "fetch net_down k url = Inl (TypeError ''Failed to fetch'')" for k url
    by (simp add: net_down_def)
  show ?thesis
    using downloadFile_retries_every_failure
      [where metadata = "\<lparr>isEncrypted = False, meta_size = Some 10\<rparr>" and c = toy_core
         and N = net_down and hash = "''Qm''" and P = toy_platform]
    by (simp add: isLargeFile_def fileSize_def attempt_fails_def f toy_url TypeError_def)
qed

lemma download_net_ok:
  "downloadFile toy_platform net_ok toy_core ''Qm'' \<lparr>isEncrypted = False, meta_size = Some n\<rparr> =
     (if 5 * 1024 * 1024 < n
      then ([Xhr ''http://relay/api/v1/ipfs/cat/Qm'', Progress 3 5, Progress 5 5],
            Inr \<lparr>blob_content = ''hello'', blob_type = ''application/octet-stream''\<rparr>)
      else (Fetch ''http://relay/api/v1/ipfs/cat/Qm'' # read_chunks (Some 5) 0 [''he'', ''llo''],
            Inr \<lparr>blob_content = concat [''he'', ''llo''],
                 blob_type = ''application/octet-stream''\<rparr>))"
proof (cases "5 * 1024 * 1024 < n")
  case True
  then show ?thesis
    by (simp add: downloadFile_def isLargeFile_def fileSize_def toy_url Let_def
        downloadWithXHR_def net_ok_def not_empty_def)
next
  case False
  have "fetch net_ok 0 url = Inr ok_response" for url
    by (simp add: net_ok_def)
  moreover have "resp_ok ok_response"
    by (simp add: resp_ok_def ok_response_def)
  ultimately show ?thesis
    using False downloadFile_first_ok
      [where metadata = "\<lparr>isEncrypted = False, meta_size = Some n\<rparr>"
         and N = net_ok and c = toy_core and hash = "''Qm''" and r = ok_response
         and P = toy_platform]
    by (simp add: isLargeFile_def fileSize_def not_empty_def ok_response_def toy_url
        or_default_def streamed_by_reader_def blob_type_octet_stream)
qed

text \<open>
  C8, as stated, does not hold.  A download of 10 bytes, below 5 MB, is not a buffered
  request: its body is read by the stream reader, chunk by chunk, with \<open>{loaded, total}\<close>
  reported after each chunk (2 of 5, then 5 of 5) and the chunks joined.  A download of
  6 MB, above 5 MB, does not use that reader: it is one \<open>XMLHttpRequest\<close> whose response
  is a single blob, and what is reported are the progress events of the request (3 of 5,
  5 of 5).
\<close>

theorem downloadFile_streams_below_5MB:
  "fileSize \<lparr>isEncrypted = False, meta_size = Some 10\<rparr> < 5 * 1024 * 1024 \<and>
   downloadFile toy_platform net_ok toy_core ''Qm'' \<lparr>isEncrypted = False, meta_size = Some 10\<rparr> =
     (Fetch ''http://relay/api/v1/ipfs/cat/Qm'' # read_chunks (Some 5) 0 [''he'', ''llo''],
      Inr \<lparr>blob_content = concat [''he'', ''llo''], blob_type = ''application/octet-stream''\<rparr>) \<and>
   read_chunks (Some 5) 0 [''he'', ''llo''] = [Progress 2 5, Progress 5 5] \<and>
   5 * 1024 * 1024 < fileSize \<lparr>isEncrypted = False, meta_size = Some (6 * 1024 * 1024)\<rparr> \<and>
   downloadFile toy_platform net_ok toy_core ''Qm''
       \<lparr>isEncrypted = False, meta_size = Some (6 * 1024 * 1024)\<rparr> =
     ([Xhr ''http://relay/api/v1/ipfs/cat/Qm'', Progress 3 5, Progress 5 5],
      Inr \<lparr>blob_content = ''hello'', blob_type = ''application/octet-stream''\<rparr>) \<and>
   xhr_end (xhr net_ok ''http://relay/api/v1/ipfs/cat/Qm'') =
     XhrLoad 200 ''OK'' \<lparr>blob_content = ''hello'', blob_type = ''application/octet-stream''\<rparr>"
  by (simp add: download_net_ok fileSize_def) (simp add: net_ok_def)

text \<open>
  C8, amended: the strategy is chosen by the declared size (0 when unknown).  A size
  strictly above 5 MB (5 * 1024 * 1024 bytes) goes through \<open>downloadWithXHR\<close>: one
  \<open>XMLHttpRequest\<close> that reports \<open>{loaded, total}\<close> for every progress event whose
  length is computable and, on a 2xx status, yields its response as one blob.  A size
  of at most 5 MB, exactly 5 MB included, goes through \<open>fetch\<close> and never through
  \<open>XMLHttpRequest\<close>.  There, when the first response is ok and the download is not
  encrypted (or the relay already decrypted it), the stream reader keeps every chunk,
  reports the bytes read so far against \<open>Content-Length\<close> after each chunk (when the
  header is present), and the blob is the chunks joined, typed by the \<open>Content-Type\<close>
  in lower case.
\<close>

theorem downloadFile_strategy:
  assumes tok: "isEncrypted metadata \<longrightarrow> truthy (encryptionToken c) \<or> truthy (authToken c)"
  shows "(5 * 1024 * 1024 < fileSize metadata \<longrightarrow>
            fst (downloadFile P N c hash metadata) =
              Xhr (download_url N c hash metadata) #
              map (\<lambda>(lengthComputable, loaded, tot). Progress loaded tot)
                (filter (\<lambda>(lengthComputable, loaded, tot). lengthComputable)
                   (xhr_progress (xhr N (download_url N c hash metadata)))) \<and>
            (\<forall>status statusText blob.
               xhr_end (xhr N (download_url N c hash metadata)) = XhrLoad status statusText blob \<and>
               200 \<le> status \<and> status < 300 \<longrightarrow>
               snd (downloadFile P N c hash metadata) = not_empty blob)) \<and>
         (fileSize metadata \<le> 5 * 1024 * 1024 \<longrightarrow>
            (\<exists>evs. fst (downloadFile P N c hash metadata) =
                     Fetch (download_url N c hash metadata) # evs \<and>
                   (\<forall>u. Xhr u \<notin> set evs))) \<and>
         (fileSize metadata \<le> 5 * 1024 * 1024 \<longrightarrow>
            (\<forall>r. fetch N 0 (download_url N c hash metadata) = Inr r \<and> resp_ok r \<and>
                 streamed_by_reader metadata r \<longrightarrow>
               fst (downloadFile P N c hash metadata) =
                 Fetch (download_url N c hash metadata) #
                 (case resp_content_length r of
                    None \<Rightarrow> []
                  | Some t \<Rightarrow>
                      map (\<lambda>k. Progress (length (concat (take (Suc k) (resp_chunks r)))) t)
                        [0..<length (resp_chunks r)]) \<and>
               snd (downloadFile P N c hash metadata) =
                 not_empty \<lparr>blob_content = concat (resp_chunks r),
                            blob_type = blob_type_of
                              (or_default (resp_content_type r)
                                 ''application/octet-stream'')\<rparr>))"
proof -
  have large: "5 * 1024 * 1024 < fileSize metadata \<Longrightarrow>
      downloadFile P N c hash metadata = downloadWithXHR N (download_url N c hash metadata)"
    using tok by (auto simp: downloadFile_def isLargeFile_def Let_def)
  have small: "fileSize metadata \<le> 5 * 1024 * 1024 \<Longrightarrow> \<not> isLargeFile metadata"
    by (simp add: isLargeFile_def)
  show ?thesis
  proof (intro conjI impI allI)
    assume "5 * 1024 * 1024 < fileSize metadata"
    then show "fst (downloadFile P N c hash metadata) =
              Xhr (download_url N c hash metadata) #
              map (\<lambda>(lengthComputable, loaded, tot). Progress loaded tot)
                (filter (\<lambda>(lengthComputable, loaded, tot). lengthComputable)
                   (xhr_progress (xhr N (download_url N c hash metadata))))"
      by (simp add: large downloadWithXHR_def)
  next
    fix status statusText blob
    assume "5 * 1024 * 1024 < fileSize metadata"
      and "xhr_end (xhr N (download_url N c hash metadata)) = XhrLoad status statusText blob \<and>
               200 \<le> status \<and> status < 300"
    then show "snd (downloadFile P N c hash metadata) = not_empty blob"
      by (simp add: large downloadWithXHR_def)
  next
    assume "fileSize metadata \<le> 5 * 1024 * 1024"
    then show "\<exists>evs. fst (downloadFile P N c hash metadata) =
                     Fetch (download_url N c hash metadata) # evs \<and>
                   (\<forall>u. Xhr u \<notin> set evs)"
      using downloadFile_small_events [OF small tok] by simp
  next
    fix r
    assume a: "fileSize metadata \<le> 5 * 1024 * 1024"
      and r: "fetch N 0 (download_url N c hash metadata) = Inr r \<and> resp_ok r \<and>
                 streamed_by_reader metadata r"
    from a r have d: "downloadFile P N c hash metadata =
           (Fetch (download_url N c hash metadata) #
              read_chunks (resp_content_length r) 0 (resp_chunks r),
            not_empty \<lparr>blob_content = concat (resp_chunks r),
                       blob_type = blob_type_of
                         (or_default (resp_content_type r) ''application/octet-stream'')\<rparr>)"
      using downloadFile_first_ok [OF small _ tok, of r N hash P] by simp
    show "fst (downloadFile P N c hash metadata) =
                 Fetch (download_url N c hash metadata) #
                 (case resp_content_length r of
                    None \<Rightarrow> []
                  | Some t \<Rightarrow>
                      map (\<lambda>k. Progress (length (concat (take (Suc k) (resp_chunks r)))) t)
                        [0..<length (resp_chunks r)])"
      by (simp add: d read_chunks_None read_chunks_Some split: option.splits)
    show "snd (downloadFile P N c hash metadata) =
                 not_empty \<lparr>blob_content = concat (resp_chunks r),
                            blob_type = blob_type_of
                              (or_default (resp_content_type r)
                                 ''application/octet-stream'')\<rparr>"
      by (simp add: d)
  qed
qed

theorem downloadFile_strategy_witness:
  "fst (downloadFile toy_platform net_ok toy_core ''Qm''
         \<lparr>isEncrypted = False, meta_size = Some (6 * 1024 * 1024)\<rparr>)
     = [Xhr ''http://relay/api/v1/ipfs/cat/Qm'', Progress 3 5, Progress 5 5] \<and>
   snd (downloadFile toy_platform net_ok toy_core ''Qm''
         \<lparr>isEncrypted = False, meta_size = Some (6 * 1024 * 1024)\<rparr>)
     = Inr \<lparr>blob_content = ''hello'', blob_type = ''application/octet-stream''\<rparr> \<and>
   fst (downloadFile toy_platform net_ok toy_core ''Qm''
         \<lparr>isEncrypted = False, meta_size = Some (5 * 1024 * 1024)\<rparr>)
     = [Fetch ''http://relay/api/v1/ipfs/cat/Qm'', Progress 2 5, Progress 5 5] \<and>
   snd (downloadFile toy_platform net_ok toy_core ''Qm''
         \<lparr>isEncrypted = False, meta_size = Some (5 * 1024 * 1024)\<rparr>)
     = Inr \<lparr>blob_content = ''hello'', blob_type = ''application/octet-stream''\<rparr>"
proof -
  have f: "fetch net_ok 0 url = Inr ok_response" for url
    by (simp add: net_ok_def)
  have x: "xhr_progress (xhr net_ok url) = [(True, 3, 5), (False, 4, 0), (True, 5, 5)]"
    "xhr_end (xhr net_ok url) =
       XhrLoad 200 ''OK'' \<lparr>blob_content = ''hello'', blob_type = ''application/octet-stream''\<rparr>"
    for url
    by (simp_all add: net_ok_def)
  have o: "resp_ok ok_response" "streamed_by_reader \<lparr>isEncrypted = False, meta_size = n\<rparr> ok_response"
    for n
    by (simp_all add: resp_ok_def ok_response_def streamed_by_reader_def)
  have u: "[0..<2] = [0, Suc 0]"
    by (simp add: upt_conv_Cons)
  show ?thesis
    using downloadFile_strategy
      [where metadata = "\<lparr>isEncrypted = False, meta_size = Some (6 * 1024 * 1024)\<rparr>"
         and N = net_ok and c = toy_core and hash = "''Qm''" and P = toy_platform]
      downloadFile_strategy
      [where metadata = "\<lparr>isEncrypted = False, meta_size = Some (5 * 1024 * 1024)\<rparr>"
         and N = net_ok and c = toy_core and hash = "''Qm''" and P = toy_platform]
    by (simp add: fileSize_def toy_url f x o u not_empty_def)
      (simp add: ok_response_def or_default_def u blob_type_octet_stream)
qed

section \<open>Properties of saveFileMetadata, deleteFile and getFileList\<close>

lemma saveFileMetadata_returns: "snd (saveFileMetadata R m w) = Inr ()"
  by (simp add: saveFileMetadata_def)

lemma saveFileMetadata_thrown:
  "saveSystemHash R m = Inl e \<Longrightarrow>
     fst (saveFileMetadata R m w) =
       log_error ''Error saving file metadata:'' (request (SaveSystemHash m) w)"
  by (simp add: saveFileMetadata_def saveFileMetadata_body_def try_catch_def Let_def)

lemma saveFileMetadata_no_success:
  "saveSystemHash R m = Inr False \<Longrightarrow>
     fst (saveFileMetadata R m w) =
       log_error ''Error saving file metadata:'' (request (SaveSystemHash m) w)"
  by (simp add: saveFileMetadata_def saveFileMetadata_body_def try_catch_def Let_def)

lemma saveFileMetadata_success:
  "saveSystemHash R m = Inr True \<Longrightarrow>
     fst (saveFileMetadata R m w) =
       (if storage_full w
        then warn ''Error updating metadata cache:'' (request (SaveSystemHash m) w)
        else (request (SaveSystemHash m) w)
               \<lparr>cache := CacheDoc (Some ((cache_data (cache w))(md_hash m \<mapsto> m))) (Some (clock w))\<rparr>)"
  by (simp add: saveFileMetadata_def saveFileMetadata_body_def try_catch_def Let_def
      update_cache_def update_cache_body_def request_def)

lemma saveFileMetadata_calls:
  "calls (fst (saveFileMetadata R m w)) = calls w @ [SaveSystemHash m]"
proof (cases "saveSystemHash R m")
  case (Inl e)
  then show ?thesis
    by (simp add: saveFileMetadata_thrown log_error_def request_def)
next
  case (Inr success)
  then show ?thesis
    by (cases success)
      (simp_all add: saveFileMetadata_success saveFileMetadata_no_success log_error_def
        request_def warn_def)
qed

text \<open>
  C4, as stated, does not hold: when the request to the relay fails, the put returns
  normally and the record is not in the local cache afterwards (the cache item is still
  missing).
\<close>

theorem saveFileMetadata_remote_failure_skips_cache:
  "saveSystemHash relay_down toy_record = Inl relay_error \<and>
   snd (saveFileMetadata relay_down toy_record empty_world) = Inr () \<and>
   cache (fst (saveFileMetadata relay_down toy_record empty_world)) = NoItem \<and>
   cache_data (cache (fst (saveFileMetadata relay_down toy_record empty_world))) ''QmA'' = None"
proof -
  have e: "saveSystemHash relay_down toy_record = Inl relay_error"
    by (simp add: relay_down_def)
  show ?thesis
    by (simp add: e saveFileMetadata_returns saveFileMetadata_thrown [OF e] log_error_def
        request_def empty_world_def cache_data_def)
qed

text \<open>
  C4, amended: \<open>saveFileMetadata\<close> always sends the record to the remote store and
  never surfaces an error.  The record is written to the local cache (whole, under its
  hash, with a new timestamp) only when the remote write reports success and
  \<open>localStorage\<close> accepts the write; when \<open>localStorage\<close> throws, that is warned and the
  cache item is left as it was.  When the remote write throws, the failure is logged
  with \<open>console.error\<close> and the cache item is left as it was; when it reports no
  success, one line is logged and the cache item is left as it was.
\<close>

theorem saveFileMetadata_write_through:
  "snd (saveFileMetadata R m w) = Inr () \<and>
   calls (fst (saveFileMetadata R m w)) = calls w @ [SaveSystemHash m] \<and>
   (saveSystemHash R m = Inr True \<and> \<not> storage_full w \<longrightarrow>
      cache (fst (saveFileMetadata R m w)) =
        CacheDoc (Some ((cache_data (cache w))(md_hash m \<mapsto> m))) (Some (clock w)) \<and>
      cache_data (cache (fst (saveFileMetadata R m w))) (md_hash m) = Some m \<and>
      console (fst (saveFileMetadata R m w)) = console w) \<and>
   (saveSystemHash R m = Inr True \<and> storage_full w \<longrightarrow>
      cache (fst (saveFileMetadata R m w)) = cache w \<and>
      console (fst (saveFileMetadata R m w)) =
        console w @ [(Warn, ''Error updating metadata cache:'')]) \<and>
   (\<forall>e. saveSystemHash R m = Inl e \<longrightarrow>
      cache (fst (saveFileMetadata R m w)) = cache w \<and>
      console (fst (saveFileMetadata R m w)) =
        console w @ [(Err, ''Error saving file metadata:'')]) \<and>
   (saveSystemHash R m = Inr False \<longrightarrow>
      cache (fst (saveFileMetadata R m w)) = cache w \<and>
      (\<exists>line. console (fst (saveFileMetadata R m w)) = console w @ [line]))"
proof -
  have ok: "saveSystemHash R m = Inr True \<and> \<not> storage_full w \<longrightarrow>
      cache (fst (saveFileMetadata R m w)) =
        CacheDoc (Some ((cache_data (cache w))(md_hash m \<mapsto> m))) (Some (clock w)) \<and>
      cache_data (cache (fst (saveFileMetadata R m w))) (md_hash m) = Some m \<and>
      console (fst (saveFileMetadata R m w)) = console w"
    by (simp add: saveFileMetadata_success request_def cache_data_def)
  have full: "saveSystemHash R m = Inr True \<and> storage_full w \<longrightarrow>
      cache (fst (saveFileMetadata R m w)) = cache w \<and>
      console (fst (saveFileMetadata R m w)) =
        console w @ [(Warn, ''Error updating metadata cache:'')]"
    by (simp add: saveFileMetadata_success request_def warn_def)
  have thrown: "\<forall>e. saveSystemHash R m = Inl e \<longrightarrow>
      cache (fst (saveFileMetadata R m w)) = cache w \<and>
      console (fst (saveFileMetadata R m w)) =
        console w @ [(Err, ''Error saving file metadata:'')]"
    by (simp add: saveFileMetadata_thrown request_def log_error_def)
  have refused: "saveSystemHash R m = Inr False \<longrightarrow>
      cache (fst (saveFileMetadata R m w)) = cache w \<and>
      (\<exists>line. console (fst (saveFileMetadata R m w)) = console w @ [line])"
    by (simp add: saveFileMetadata_no_success request_def log_error_def)
  show ?thesis
    using ok full thrown refused saveFileMetadata_returns [of R m w]
      saveFileMetadata_calls [of R m w]
    by blast
qed

theorem saveFileMetadata_write_through_witness:
  "saveSystemHash relay_ok toy_record = Inr True \<and> \<not> storage_full empty_world \<and>
   cache_data (cache (fst (saveFileMetadata relay_ok toy_record empty_world))) ''QmA''
     = Some toy_record \<and>
   storage_full (empty_world\<lparr>storage_full := True\<rparr>) \<and>
   cache (fst (saveFileMetadata relay_ok toy_record (empty_world\<lparr>storage_full := True\<rparr>)))
     = NoItem \<and>
   console (fst (saveFileMetadata relay_ok toy_record (empty_world\<lparr>storage_full := True\<rparr>)))
     = [(Warn, ''Error updating metadata cache:'')] \<and>
   saveSystemHash relay_down toy_record = Inl relay_error \<and>
   console (fst (saveFileMetadata relay_down toy_record empty_world))
     = [(Err, ''Error saving file metadata:'')]"
proof -
  have a: "saveSystemHash relay_ok toy_record = Inr True"
    "saveSystemHash relay_down toy_record = Inl relay_error"
    by (simp_all add: relay_ok_def relay_down_def)
  have b: "\<not> storage_full empty_world" "cache empty_world = NoItem" "console empty_world = []"
    "md_hash toy_record = ''QmA''"
    by (simp_all add: empty_world_def toy_record_def)
  show ?thesis
    using saveFileMetadata_write_through [of relay_ok toy_record empty_world]
      saveFileMetadata_write_through [of relay_ok toy_record "empty_world\<lparr>storage_full := True\<rparr>"]
      saveFileMetadata_write_through [of relay_down toy_record empty_world]
    by (simp add: a b cache_data_def)
qed

lemma remove_from_cache_cases:
  "remove_from_cache msg cid w =
     (case cache w of
        NoItem \<Rightarrow> w
      | BadJson \<Rightarrow> warn msg w
      | CacheDoc None ts \<Rightarrow> w
      | CacheDoc (Some d) ts \<Rightarrow>
          (case d cid of
             None \<Rightarrow> w
           | Some _ \<Rightarrow>
               if storage_full w then warn msg w
               else w\<lparr>cache := CacheDoc (Some (d(cid := None))) (Some (clock w))\<rparr>))"
  by (simp add: remove_from_cache_def remove_from_cache_body_def try_catch_def
      split: cache_item.splits option.splits)

lemma delete_pin_world:
  "console (delete_pin R c cid w) =
     console w @ (if truthy (authToken c) \<and> pinRm R cid \<noteq> None
                  then [(Warn, ''Pin removal failed'')] else [])"
  "calls (delete_pin R c cid w) = calls w @ (if truthy (authToken c) then [PinRm cid] else [])"
  "cache (delete_pin R c cid w) = cache w"
  "storage_full (delete_pin R c cid w) = storage_full w"
  "clock (delete_pin R c cid w) = clock w"
  by (auto simp: delete_pin_def try_catch_def warn_def request_def split: option.splits)

lemma delete_remote_metadata_world:
  "console (delete_remote_metadata R c cid owner w) =
     console w @
       (if truthy (authToken c) then
          (if removeSystemHash R cid
                (or_default (js_or owner (Some (userAddress c))) ''drive-user'') \<noteq> None
           then [(Warn, ''Error removing metadata:'')] else [])
        else if walletSignature c \<noteq> [] \<and> userAddress c \<noteq> [] then
          (case remove_fetch R cid of
             Inl e \<Rightarrow> [(Warn, ''Error removing metadata:'')]
           | Inr ok \<Rightarrow> if ok then [] else [(Warn, ''Metadata removal returned'')])
        else [])"
  "calls (delete_remote_metadata R c cid owner w) =
     calls w @
       (if truthy (authToken c)
        then [RemoveSystemHash cid (or_default (js_or owner (Some (userAddress c))) ''drive-user'')]
        else if walletSignature c \<noteq> [] \<and> userAddress c \<noteq> [] then [RemoveFetch cid]
        else [])"
  "cache (delete_remote_metadata R c cid owner w) = cache w"
  "storage_full (delete_remote_metadata R c cid owner w) = storage_full w"
  "clock (delete_remote_metadata R c cid owner w) = clock w"
  by (auto simp: delete_remote_metadata_def delete_remote_metadata_body_def try_catch_def
      warn_def request_def Let_def split: option.splits sum.splits)

lemma remove_from_cache_world:
  "console (remove_from_cache msg cid w) =
     console w @
       (case cache w of
          BadJson \<Rightarrow> [(Warn, msg)]
        | CacheDoc (Some d) ts \<Rightarrow> if d cid \<noteq> None \<and> storage_full w then [(Warn, msg)] else []
        | _ \<Rightarrow> [])"
  "calls (remove_from_cache msg cid w) = calls w"
  "cache (remove_from_cache msg cid w) =
     (case cache w of
        CacheDoc (Some d) ts \<Rightarrow>
          if d cid \<noteq> None \<and> \<not> storage_full w
          then CacheDoc (Some (d(cid := None))) (Some (clock w)) else cache w
      | _ \<Rightarrow> cache w)"
  by (auto simp: remove_from_cache_cases warn_def split: cache_item.splits option.splits)

text \<open>
  C10: with an auth token or a wallet signature, \<open>deleteFile\<close> returns \<open>true\<close>
  whatever the relay and the cache do.  Each step that fails leaves its own warning on
  the console, whether or not the other steps fail: the pin removal (admin mode), the
  removal of the remote record (through the SDK in admin mode; in wallet mode a
  rejected request and a response that is not ok), and the removal from the local
  cache (an unreadable item, or \<open>setItem\<close> throwing).  Nothing else is written to the
  console, and a record that can be removed from the cache is removed.
\<close>

theorem deleteFile_always_true:
  assumes "truthy (authToken c) \<or> walletSignature c \<noteq> []"
  shows "snd (deleteFile R c cid owner w) = Inr True \<and>
         console (fst (deleteFile R c cid owner w)) =
           console w @
             (if truthy (authToken c) \<and> pinRm R cid \<noteq> None
              then [(Warn, ''Pin removal failed'')] else []) @
             (if truthy (authToken c) then
                (if removeSystemHash R cid
                      (or_default (js_or owner (Some (userAddress c))) ''drive-user'') \<noteq> None
                 then [(Warn, ''Error removing metadata:'')] else [])
              else if walletSignature c \<noteq> [] \<and> userAddress c \<noteq> [] then
                (case remove_fetch R cid of
                   Inl e \<Rightarrow> [(Warn, ''Error removing metadata:'')]
                 | Inr ok \<Rightarrow> if ok then [] else [(Warn, ''Metadata removal returned'')])
              else []) @
             (case cache w of
                BadJson \<Rightarrow> [(Warn, ''Error removing from cache:'')]
              | CacheDoc (Some d) ts \<Rightarrow>
                  if d cid \<noteq> None \<and> storage_full w
                  then [(Warn, ''Error removing from cache:'')] else []
              | _ \<Rightarrow> []) \<and>
         calls (fst (deleteFile R c cid owner w)) =
           calls w @
             (if truthy (authToken c)
              then [PinRm cid,
                    RemoveSystemHash cid
                      (or_default (js_or owner (Some (userAddress c))) ''drive-user'')]
              else if walletSignature c \<noteq> [] \<and> userAddress c \<noteq> [] then [RemoveFetch cid]
              else []) \<and>
         cache (fst (deleteFile R c cid owner w)) =
           (case cache w of
              CacheDoc (Some d) ts \<Rightarrow>
                if d cid \<noteq> None \<and> \<not> storage_full w
                then CacheDoc (Some (d(cid := None))) (Some (clock w)) else cache w
            | _ \<Rightarrow> cache w)"
proof -
  have d: "deleteFile R c cid owner w =
      (remove_from_cache ''Error removing from cache:'' cid
         (delete_remote_metadata R c cid owner (delete_pin R c cid w)), Inr True)"
    using assms by (auto simp: deleteFile_def deleteFile_body_def)
  show ?thesis
    unfolding d
    by (simp add: remove_from_cache_world delete_remote_metadata_world delete_pin_world
        split: cache_item.splits option.splits)
qed

theorem deleteFile_always_true_witness:
  "truthy (authToken toy_core) \<and>
   snd (deleteFile (relay_ok\<lparr>pinRm := \<lambda>cid. Some relay_error\<rparr>) toy_core ''QmA'' None fresh_world)
     = Inr True \<and>
   console (fst (deleteFile (relay_ok\<lparr>pinRm := \<lambda>cid. Some relay_error\<rparr>) toy_core ''QmA'' None
                   fresh_world))
     = [(Warn, ''Pin removal failed'')] \<and>
   cache_data (cache (fst (deleteFile (relay_ok\<lparr>pinRm := \<lambda>cid. Some relay_error\<rparr>) toy_core
                              ''QmA'' None fresh_world))) ''QmA'' = None \<and>
   walletSignature wallet_core \<noteq> [] \<and>
   snd (deleteFile relay_down wallet_core ''QmA'' None (fresh_world\<lparr>storage_full := True\<rparr>))
     = Inr True \<and>
   console (fst (deleteFile relay_down wallet_core ''QmA'' None
                   (fresh_world\<lparr>storage_full := True\<rparr>)))
     = [(Warn, ''Error removing metadata:''), (Warn, ''Error removing from cache:'')] \<and>
   snd (deleteFile relay_down toy_core ''QmA'' None (empty_world\<lparr>cache := BadJson\<rparr>)) = Inr True \<and>
   console (fst (deleteFile relay_down toy_core ''QmA'' None (empty_world\<lparr>cache := BadJson\<rparr>))) =
     [(Warn, ''Pin removal failed''), (Warn, ''Error removing metadata:''),
      (Warn, ''Error removing from cache:'')]"
  using deleteFile_always_true
      [of toy_core "relay_ok\<lparr>pinRm := \<lambda>cid. Some relay_error\<rparr>" "''QmA''" None fresh_world]
    deleteFile_always_true
      [of wallet_core relay_down "''QmA''" None "fresh_world\<lparr>storage_full := True\<rparr>"]
    deleteFile_always_true
      [of toy_core relay_down "''QmA''" None "empty_world\<lparr>cache := BadJson\<rparr>"]
  by (simp add: toy_core_def wallet_core_def truthy_def relay_ok_def relay_down_def
      fresh_world_def empty_world_def cache_data_def js_or_def or_default_def)

lemma getFileList_admin:
  assumes "truthy (authToken c)" "health R" "\<forall>e. pinLs R = Inl e \<longrightarrow> err_status e \<noteq> Some 401"
  shows "\<exists>w' pins. getFileList R c w =
           (w', Inr (PinsAndMetadata pins
                       (if cache_fresh w then cache_data (cache w) else Map.empty))) \<and>
         calls w' = calls w @ [Health, PinLs, GetSystemHashesMap] \<and> cache w' = cache w"
  using assms
  by (cases "pinLs R"; cases "cache w")
    (auto simp: getFileList_def checkRelayConnection_def Let_def request_def warn_def
      cached_systemHashMap_def cache_fresh_def cache_data_def split: option.splits)

text \<open>
  C2, as stated, does not hold: a listing made one second after the cache was written
  still sends the request for the system hash map, and a listing made ten minutes after
  it was written is built from the empty map, not from the cached one.
\<close>

theorem getFileList_fresh_cache_still_fetches:
  "cache_fresh fresh_world \<and>
   calls (fst (getFileList relay_ok toy_core fresh_world)) = [Health, PinLs, GetSystemHashesMap] \<and>
   snd (getFileList relay_ok toy_core fresh_world) =
     Inr (PinsAndMetadata [] [''QmA'' \<mapsto> toy_record]) \<and>
   cache_data (cache stale_world) ''QmA'' = Some toy_record \<and>
   snd (getFileList relay_ok toy_core stale_world) = Inr (PinsAndMetadata [] Map.empty)"
  by (simp add: getFileList_def checkRelayConnection_def Let_def request_def
      cached_systemHashMap_def cache_fresh_def cache_data_def fresh_world_def stale_world_def
      empty_world_def toy_core_def truthy_def relay_ok_def)

text \<open>
  C2, amended: every admin-mode \<open>getFileList\<close> that reaches the relay (health answered,
  pins not refused with 401) sends exactly one request for the system hash map,
  whatever the age of the cache, and returns without waiting for it: the cache item is
  unchanged on return.  The listing is built from the cached map when the cache is less
  than 5 minutes old and from the empty map otherwise.  When the request is answered
  later, the cache item is replaced by the map of the server with the timestamp of that
  moment, for the reads that follow.
\<close>

theorem getFileList_stale_while_revalidate:
  assumes "truthy (authToken c)" "health R" "\<forall>e. pinLs R = Inl e \<longrightarrow> err_status e \<noteq> Some 401"
  shows "(\<exists>w' pins. getFileList R c w =
           (w', Inr (PinsAndMetadata pins
                       (if cache_fresh w then cache_data (cache w) else Map.empty))) \<and>
           calls w' = calls w @ [Health, PinLs, GetSystemHashesMap] \<and> cache w' = cache w) \<and>
         (\<forall>m w2. getSystemHashesMap R = Inr m \<and> \<not> storage_full w2 \<longrightarrow>
            cache (refresh_settles R w2) = CacheDoc (Some m) (Some (clock w2)))"
  using getFileList_admin [OF assms, of w] by (auto simp: refresh_settles_def)

theorem getFileList_stale_while_revalidate_witness:
  "truthy (authToken toy_core) \<and> health relay_ok \<and>
   (\<exists>w'. getFileList relay_ok toy_core stale_world = (w', Inr (PinsAndMetadata [] Map.empty)) \<and>
      calls w' = [Health, PinLs, GetSystemHashesMap] \<and> cache w' = cache stale_world) \<and>
   cache (refresh_settles relay_ok (stale_world\<lparr>clock := 1000500\<rparr>))
     = CacheDoc (Some Map.empty) (Some 1000500)"
proof -
  have a: "truthy (authToken toy_core)" "health relay_ok"
    "\<forall>e. pinLs relay_ok = Inl e \<longrightarrow> err_status e \<noteq> Some 401"
    by (simp_all add: toy_core_def truthy_def relay_ok_def)
  have p: "pinLs relay_ok = Inr []" "getSystemHashesMap relay_ok = Inr Map.empty"
    by (simp_all add: relay_ok_def)
  have s: "\<not> cache_fresh stale_world" "calls stale_world = []"
    "\<not> storage_full (stale_world\<lparr>clock := 1000500\<rparr>)"
    by (simp_all add: cache_fresh_def stale_world_def empty_world_def)
  from getFileList_stale_while_revalidate [OF a, of stale_world] s p
  have "(\<exists>w' pins. getFileList relay_ok toy_core stale_world =
           (w', Inr (PinsAndMetadata pins Map.empty)) \<and>
           calls w' = [Health, PinLs, GetSystemHashesMap] \<and> cache w' = cache stale_world)"
    and r: "cache (refresh_settles relay_ok (stale_world\<lparr>clock := 1000500\<rparr>))
     = CacheDoc (Some Map.empty) (Some 1000500)"
    by auto
  then obtain w' pins where g: "getFileList relay_ok toy_core stale_world =
           (w', Inr (PinsAndMetadata pins Map.empty))"
     "calls w' = [Health, PinLs, GetSystemHashesMap]" "cache w' = cache stale_world"
    by blast
  have "snd (getFileList relay_ok toy_core stale_world) = Inr (PinsAndMetadata [] Map.empty)"
    by (simp add: getFileList_def checkRelayConnection_def Let_def request_def
      cached_systemHashMap_def stale_world_def
      empty_world_def toy_core_def truthy_def relay_ok_def)
  with g have "pins = []" by simp
  with g r a show ?thesis by blast
qed

section \<open>Properties of the navigation update\<close>

lemma set_last_cid_length: "length (set_last_cid new path) = length path"
  by (simp add: set_last_cid_def)

lemma set_last_cid_last:
  "path \<noteq> [] \<Longrightarrow> frame_cid (last (set_last_cid new path)) = new"
  by (simp add: set_last_cid_def last_list_update)

lemma set_last_cid_earlier:
  "Suc i < length path \<Longrightarrow> set_last_cid new path ! i = path ! i"
  by (simp add: set_last_cid_def)

text \<open>
  C6: the repoint of the breadcrumb goes wrong when the last entry is not the one that
  references the rebuilt directory. Both handlers assign the new address to
  \<open>currentPath[currentPath.length - 1].cid\<close> without comparing that entry with the old
  address. In the state with the breadcrumb \<open>A, Q\<close> and the current directory \<open>A\<close>
  (reached from the root listing by a click on \<open>A\<close>, on \<open>Q\<close> and on \<open>A\<close> again while the
  listing of the root is still shown: \<open>handleFolderClick\<close> pushes the directory that is
  left), a rebuild of \<open>A\<close> into \<open>B\<close> sets the current directory to \<open>B\<close>, overwrites the
  address of the entry of \<open>Q\<close> with \<open>B\<close>, and leaves the entry that references \<open>A\<close> with the
  address \<open>A\<close>, which the rebuild has just replaced.
\<close>

theorem repoint_keeps_earlier_entry:
  "currentDirectoryCid nav_A_Q = Some ''A'' \<and>
   map frame_cid (currentPath nav_A_Q) = [''A'', ''Q''] \<and>
   currentDirectoryCid (handleFileDelete_repoint nav_A_Q ''A'' rebuilt_B) = Some ''B'' \<and>
   currentPath (handleFileDelete_repoint nav_A_Q ''A'' rebuilt_B) =
     [\<lparr>frame_cid = ''A'', frame_name = ''docs''\<rparr>, \<lparr>frame_cid = ''B'', frame_name = ''other''\<rparr>] \<and>
   handleUpload_repoint nav_A_Q ''A'' rebuilt_B = handleFileDelete_repoint nav_A_Q ''A'' rebuilt_B"
  by (simp add: handleFileDelete_repoint_def handleUpload_repoint_def nav_A_Q_def rebuilt_B_def
      truthy_def set_last_cid_def or_default_def)

text \<open>
  What the two handlers do in general: when the rebuild succeeds with an address \<open>B\<close>
  different from \<open>A\<close> and the current directory is \<open>A\<close>, the current directory becomes
  \<open>B\<close>, the breadcrumb keeps its length, its last entry (whatever it referenced) gets the
  address \<open>B\<close>, and the entries before the last are left as they are.
\<close>

lemma repoint_current_and_last_entry:
  assumes "res_success result" "res_directoryCid result = Some B" "B \<noteq> []" "B \<noteq> A"
    and "currentDirectoryCid n = Some A"
  shows "currentDirectoryCid (handleFileDelete_repoint n A result) = Some B \<and>
         handleUpload_repoint n A result = handleFileDelete_repoint n A result \<and>
         length (currentPath (handleFileDelete_repoint n A result)) = length (currentPath n) \<and>
         (currentPath n \<noteq> [] \<longrightarrow>
            frame_cid (last (currentPath (handleFileDelete_repoint n A result))) = B) \<and>
         (\<forall>i. Suc i < length (currentPath n) \<longrightarrow>
            currentPath (handleFileDelete_repoint n A result) ! i = currentPath n ! i)"
proof -
  have d: "handleFileDelete_repoint n A result =
      n\<lparr>currentDirectoryCid := Some B, currentPath := set_last_cid B (currentPath n)\<rparr>"
    using assms by (simp add: handleFileDelete_repoint_def truthy_def or_default_def)
  have u: "handleUpload_repoint n A result =
      n\<lparr>currentDirectoryCid := Some B, currentPath := set_last_cid B (currentPath n)\<rparr>"
    using assms by (simp add: handleUpload_repoint_def truthy_def or_default_def)
  show ?thesis
    by (simp add: d u set_last_cid_length set_last_cid_last set_last_cid_earlier)
qed

lemma repoint_current_and_last_entry_inside_A:
  "currentDirectoryCid nav_A = Some ''A'' \<and> frame_cid (last (currentPath nav_A)) = ''A'' \<and>
   handleFileDelete_repoint nav_A ''A'' rebuilt_B =
     \<lparr>currentPath = [\<lparr>frame_cid = ''B'', frame_name = ''docs''\<rparr>],
      currentDirectoryCid = Some ''B''\<rparr> \<and>
   currentDirectoryCid (handleUpload_repoint nav_A ''A'' rebuilt_B) = Some ''B'' \<and>
   frame_cid (last (currentPath (handleUpload_repoint nav_A ''A'' rebuilt_B))) = ''B''"
  using repoint_current_and_last_entry [of rebuilt_B "''B''" "''A''" nav_A]
  by (simp add: nav_A_def rebuilt_B_def handleFileDelete_repoint_def truthy_def
      set_last_cid_def or_default_def)

section \<open>Properties of removeFileFromDirectory\<close>

lemma split_on_nonempty: "split_on c s \<noteq> []"
  by (induction s) auto

lemma split_on_single: "c \<notin> set s \<Longrightarrow> split_on c s = [s]"
  by (induction s) auto

lemma split_on_length: "length (split_on c s) > 1 \<longleftrightarrow> c \<in> set s"
proof (induction s)
  case Nil
  show ?case by simp
next
  case (Cons x xs)
  have "length (tl (split_on c xs)) = length (split_on c xs) - 1" by simp
  with Cons split_on_nonempty [of c xs] show ?case
    by (cases "split_on c xs") auto
qed

lemma split_on_last_free: "c \<notin> set (last (split_on c s))"
proof (induction s)
  case Nil
  show ?case by simp
next
  case (Cons x xs)
  with split_on_nonempty [of c xs] show ?case
    by (cases "split_on c xs"; cases "tl (split_on c xs) = []") auto
qed

lemma normalize_path_last_segment: "normalize_path p = last_segment p"
proof (cases "CHR ''/'' \<in> set p")
  case True
  then show ?thesis
    using split_on_length [of "CHR ''/''" p]
    by (simp add: normalize_path_def last_segment_def)
next
  case False
  then show ?thesis
    using split_on_length [of "CHR ''/''" p]
    by (simp add: normalize_path_def last_segment_def split_on_single)
qed

lemma last_segment_idem: "last_segment (last_segment p) = last_segment p"
  using split_on_last_free [of "CHR ''/''" p]
  by (simp add: last_segment_def split_on_single)

lemma filter_members_Inr:
  "filter_members p ms = Inr rem \<Longrightarrow>
     rem = filter (keeps p) ms \<and> (\<forall>m\<in>set ms. member_path m \<noteq> None)"
  by (induction ms arbitrary: rem) (auto simp: keeps_def split: option.splits sum.splits if_splits)

lemma filter_members_defined:
  "\<forall>m\<in>set ms. member_path m \<noteq> None \<Longrightarrow> filter_members p ms = Inr (filter (keeps p) ms)"
  by (induction ms) (auto simp: keeps_def split: option.splits)

lemma fetch_member_result:
  "truthy (authToken c) \<Longrightarrow>
   snd (fetch_member R c cid m w) =
     (if fetched R cid m then Some (existing_file R cid m) else None)"
  by (auto simp: fetch_member_def fetched_def existing_file_def catFromDirectory_def Let_def
      normalize_path_last_segment last_segment_idem or_default_def
      split: option.splits sum.splits)

lemma fetch_remaining_result:
  "truthy (authToken c) \<Longrightarrow>
   snd (fetch_remaining R c cid ms w) = map (existing_file R cid) (filter (fetched R cid) ms)"
proof (induction ms arbitrary: w)
  case Nil
  show ?case by simp
next
  case (Cons m ms)
  obtain w1 f where f: "fetch_member R c cid m w = (w1, f)" by (cases "fetch_member R c cid m w")
  with fetch_member_result [OF Cons.prems, of R cid m w]
  have "f = (if fetched R cid m then Some (existing_file R cid m) else None)" by simp
  with Cons.IH [OF Cons.prems, of w1] f show ?case
    by (auto split: prod.splits)
qed

lemma prepare_entry_path:
  "fe_path (snd (prepare_entry P c enc f w)) = or_default (webkitRelativePath f) (file_name f)"
  by (simp add: prepare_entry_def Let_def split: sum.splits)

lemma prepare_entries_paths:
  "map fe_path (snd (prepare_entries P c enc fs w)) =
     map (\<lambda>f. or_default (webkitRelativePath f) (file_name f)) fs"
proof (induction fs arbitrary: w)
  case Nil
  show ?case by simp
next
  case (Cons f fs)
  obtain w1 e where e: "prepare_entry P c enc f w = (w1, e)" by (cases "prepare_entry P c enc f w")
  with prepare_entry_path [of P c enc f w] Cons.IH [of w1] show ?case
    by (auto split: prod.splits)
qed

lemma finish_upload_Inr:
  "finish_upload R fb mk answer w = (w', Inr r) \<Longrightarrow>
     \<exists>cid. cid \<noteq> [] \<and> r = \<lparr>res_success = True, res_directoryCid = Some cid,
                                 res_metadata = Some (mk cid)\<rparr>"
  by (auto simp: finish_upload_def Let_def truthy_def or_default_def
      split: sum.splits if_splits option.splits)

lemma prepare_entries_paths':
  "prepare_entries P c enc fs w = (w2, es) \<Longrightarrow>
     map fe_path es = map (\<lambda>f. or_default (webkitRelativePath f) (file_name f)) fs"
  using prepare_entries_paths [of P c enc fs w] by simp

lemma uploadDirectory_paths:
  assumes "uploadDirectory P R c fs enc folder w = (w', Inr r)"
  shows "snapshot_paths r = map (\<lambda>f. Some (or_default (webkitRelativePath f) (file_name f))) fs"
proof -
  have m: "map (\<lambda>e. Some (fe_path e)) es = map Some (map fe_path es)" for es :: "file_entry list"
    by (simp add: comp_def)
  from assms show ?thesis
    by (auto simp: uploadDirectory_def Let_def snapshot_paths_def entry_meta_def comp_def m
        split: if_splits prod.splits sum.splits
        dest!: finish_upload_Inr prepare_entries_paths')
qed

lemma createEmptyDirectory_paths:
  assumes "createEmptyDirectory R c folder w = (w', Inr r)"
  shows "snapshot_paths r = []"
  using assms
  by (auto simp: createEmptyDirectory_def snapshot_paths_def
      split: if_splits prod.splits sum.splits dest!: finish_upload_Inr)

lemma existing_file_path:
  "or_default (webkitRelativePath (existing_file R cid m)) (file_name (existing_file R cid m))
     = new_path m"
  by (simp add: existing_file_def new_path_def or_default_def split: option.splits)

lemma removeFileFromDirectory_paths:
  assumes "removeFileFromDirectory P R c cid p ms w = (w', Inr r)"
  shows "snapshot_paths r =
           map (\<lambda>m. Some (new_path m)) (filter (fetched R cid) (filter (keeps p) ms))"
proof -
  from assms have tok: "truthy (authToken c)"
    by (auto simp: removeFileFromDirectory_def split: if_splits)
  from assms tok obtain rem where rem: "filter_members p ms = Inr rem"
    by (cases "filter_members p ms") (auto simp: removeFileFromDirectory_def)
  then have rem_eq: "rem = filter (keeps p) ms"
    using filter_members_Inr by blast
  obtain w1 allFiles where fr: "fetch_remaining R c cid rem w = (w1, allFiles)"
    by (cases "fetch_remaining R c cid rem w")
  then have all: "allFiles = map (existing_file R cid) (filter (fetched R cid) rem)"
    using fetch_remaining_result [OF tok, of R cid rem w] by simp
  obtain w2 folder where cf: "cached_folderName cid w1 = (w2, folder)"
    by (cases "cached_folderName cid w1")
  show ?thesis
  proof (cases "allFiles = []")
    case True
    with assms tok rem fr cf have "createEmptyDirectory R c folder w2 = (w', Inr r)"
      by (auto simp: removeFileFromDirectory_def split: if_splits)
    from createEmptyDirectory_paths [OF this] True all rem_eq show ?thesis
      by simp
  next
    case False
    with assms tok rem fr cf obtain w3 where
      "uploadDirectory P R c allFiles True (Some folder) w2 = (w3, Inr r)"
      by (auto simp: removeFileFromDirectory_def split: if_splits prod.splits sum.splits)
    from uploadDirectory_paths [OF this] all rem_eq show ?thesis
      by (simp add: comp_def existing_file_path)
  qed
qed

lemma removeFileFromDirectory_not_found:
  assumes "truthy (authToken c)" "\<forall>m\<in>set ms. keeps p m"
  shows "removeFileFromDirectory P R c cid p ms w = (w, Inl (Error ''File not found in directory''))"
proof -
  from assms(2) have "\<forall>m\<in>set ms. member_path m \<noteq> None"
    by (auto simp: keeps_def split: option.splits)
  then have "filter_members p ms = Inr (filter (keeps p) ms)"
    by (rule filter_members_defined)
  moreover from assms(2) have "filter (keeps p) ms = ms"
    by (simp add: filter_id_conv)
  ultimately show ?thesis
    using assms(1) by (simp add: removeFileFromDirectory_def)
qed

lemma no_empty_upload_ex:
  "no_empty_upload w w' \<longleftrightarrow>
     (\<exists>xs. calls w' = calls w @ xs \<and> UploadDirectoryBrowser [] \<notin> set xs)"
proof
  assume "no_empty_upload w w'"
  then have "calls w' = calls w @ drop (length (calls w)) (calls w')"
    and "UploadDirectoryBrowser [] \<notin> set (drop (length (calls w)) (calls w'))"
    by (simp_all add: no_empty_upload_def) (metis append_take_drop_id)
  then show "\<exists>xs. calls w' = calls w @ xs \<and> UploadDirectoryBrowser [] \<notin> set xs"
    by blast
next
  assume "\<exists>xs. calls w' = calls w @ xs \<and> UploadDirectoryBrowser [] \<notin> set xs"
  then show "no_empty_upload w w'"
    by (auto simp: no_empty_upload_def)
qed

lemma neu_refl: "no_empty_upload w w"
  by (simp add: no_empty_upload_ex)

lemma neu_same: "calls w' = calls w \<Longrightarrow> no_empty_upload w w'"
  by (simp add: no_empty_upload_ex)

lemma neu_trans: "no_empty_upload w w1 \<Longrightarrow> no_empty_upload w1 w2 \<Longrightarrow> no_empty_upload w w2"
  by (auto simp: no_empty_upload_ex)

lemma neu_one: "c \<noteq> UploadDirectoryBrowser [] \<Longrightarrow> calls w' = calls w @ [c] \<Longrightarrow> no_empty_upload w w'"
  by (auto simp: no_empty_upload_ex)

lemma calls_simps:
  "calls (warn msg w) = calls w"
  "calls (log_error msg w) = calls w"
  "calls (request c w) = calls w @ [c]"
  by (simp_all add: warn_def log_error_def request_def)

lemma neu_saveFileMetadata: "no_empty_upload w (fst (saveFileMetadata R m w))"
  by (rule neu_one [of "SaveSystemHash m"]) (simp_all add: saveFileMetadata_calls)

lemma neu_connect: "no_empty_upload w (fst (connect_and_authenticate R c w))"
  by (auto simp: no_empty_upload_ex connect_and_authenticate_def checkRelayConnection_def
      checkAuthentication_def calls_simps split: sum.splits)

lemma prepare_entries_calls: "calls (fst (prepare_entries P c enc fs w)) = calls w"
proof (induction fs arbitrary: w)
  case Nil
  show ?case by simp
next
  case (Cons f fs)
  obtain w1 e where e: "prepare_entry P c enc f w = (w1, e)"
    by (cases "prepare_entry P c enc f w")
  have "calls (fst (prepare_entry P c enc f w)) = calls w"
    by (simp add: prepare_entry_def Let_def calls_simps split: sum.splits)
  with e have "calls w1 = calls w" by simp
  with Cons.IH [of w1] e show ?case
    by (auto split: prod.splits)
qed

lemma neu_finish_upload: "no_empty_upload w (fst (finish_upload R fb mk ans w))"
  by (auto simp: finish_upload_def Let_def neu_refl neu_saveFileMetadata split: sum.splits)

lemma neu_uploadDirectory: "no_empty_upload w (fst (uploadDirectory P R c fs enc folder w))"
proof (cases "(\<not> truthy (authToken c) \<and> userAddress c = []) \<or> fs = []")
  case True
  then show ?thesis by (auto simp: uploadDirectory_def neu_refl)
next
  case False
  obtain w1 r1 where c1: "connect_and_authenticate R c w = (w1, r1)"
    by (cases "connect_and_authenticate R c w")
  have n1: "no_empty_upload w w1"
    using neu_connect [of w R c] c1 by simp
  show ?thesis
  proof (cases r1)
    case (Inl e)
    with False c1 n1 show ?thesis by (auto simp: uploadDirectory_def neu_refl)
  next
    case (Inr u)
    obtain w2 es where p: "prepare_entries P c enc fs w1 = (w2, es)"
      by (cases "prepare_entries P c enc fs w1")
    then have c2: "calls w2 = calls w1"
      using prepare_entries_calls [of P c enc fs w1] by simp
    from p have "length es = length fs"
      using prepare_entries_paths' [OF p] by (metis length_map)
    with False have ne: "map file_object es \<noteq> []" by auto
    have "no_empty_upload w1 (request (UploadDirectoryBrowser (map file_object es)) w2)"
      using ne c2 by (intro neu_one [of "UploadDirectoryBrowser (map file_object es)"])
        (simp_all add: calls_simps)
    then have "no_empty_upload w (fst (finish_upload R fb mk ans
        (request (UploadDirectoryBrowser (map file_object es)) w2)))" for fb mk ans
      using n1 neu_finish_upload neu_trans by blast
    with False c1 Inr p show ?thesis
      by (auto simp: uploadDirectory_def Let_def neu_refl)
  qed
qed

lemma neu_createEmptyDirectory: "no_empty_upload w (fst (createEmptyDirectory R c folder w))"
proof (cases "\<not> truthy (authToken c) \<and> userAddress c = []")
  case True
  then show ?thesis by (auto simp: createEmptyDirectory_def neu_refl)
next
  case False
  obtain w1 r1 where c1: "connect_and_authenticate R c w = (w1, r1)"
    by (cases "connect_and_authenticate R c w")
  have n1: "no_empty_upload w w1"
    using neu_connect [of w R c] c1 by simp
  show ?thesis
  proof (cases r1)
    case (Inl e)
    with False c1 n1 show ?thesis by (auto simp: createEmptyDirectory_def neu_refl)
  next
    case (Inr u)
    have "no_empty_upload w1 (request (UploadDirectoryBrowser [placeholderFile folder]) w1)"
      by (intro neu_one [of "UploadDirectoryBrowser [placeholderFile folder]"])
        (simp_all add: calls_simps)
    then have "no_empty_upload w (fst (finish_upload R fb mk ans
        (request (UploadDirectoryBrowser [placeholderFile folder]) w1)))" for fb mk ans
      using n1 neu_finish_upload neu_trans by blast
    with False c1 Inr show ?thesis
      by (auto simp: createEmptyDirectory_def neu_refl)
  qed
qed

lemma neu_fetch_member: "no_empty_upload w (fst (fetch_member R c cid m w))"
  by (auto simp: no_empty_upload_ex fetch_member_def catFromDirectory_def Let_def calls_simps
      split: option.splits sum.splits)

lemma neu_fetch_remaining: "no_empty_upload w (fst (fetch_remaining R c cid ms w))"
proof (induction ms arbitrary: w)
  case Nil
  show ?case by (simp add: neu_refl)
next
  case (Cons m ms)
  obtain w1 f where f: "fetch_member R c cid m w = (w1, f)" by (cases "fetch_member R c cid m w")
  with neu_fetch_member [of w R c cid m] have "no_empty_upload w w1" by simp
  with Cons.IH [of w1] f show ?case
    by (auto split: prod.splits intro: neu_trans)
qed

lemma cached_folderName_calls: "calls (fst (cached_folderName cid w)) = calls w"
  by (simp add: cached_folderName_def calls_simps split: cache_item.splits option.splits)

lemma remove_from_cache_calls: "calls (remove_from_cache msg cid w) = calls w"
  by (rule remove_from_cache_world)

lemma neu_cleanup_old: "no_empty_upload w (cleanup_old R cid r w)"
  by (auto simp: no_empty_upload_ex cleanup_old_def Let_def calls_simps remove_from_cache_calls
      split: option.splits)

lemma neu_removeFileFromDirectory:
  "no_empty_upload w (fst (removeFileFromDirectory P R c cid p ms w))"
proof (cases "truthy (authToken c)")
  case False
  then show ?thesis by (simp add: removeFileFromDirectory_def neu_refl)
next
  case tok: True
  show ?thesis
  proof (cases "filter_members p ms")
    case (Inl e)
    with tok show ?thesis by (simp add: removeFileFromDirectory_def neu_refl)
  next
    case (Inr rem)
    obtain w1 allFiles where fr: "fetch_remaining R c cid rem w = (w1, allFiles)"
      by (cases "fetch_remaining R c cid rem w")
    then have n1: "no_empty_upload w w1"
      using neu_fetch_remaining [of w R c cid rem] by simp
    obtain w2 folder where cf: "cached_folderName cid w1 = (w2, folder)"
      by (cases "cached_folderName cid w1")
    then have "calls w2 = calls w1"
      using cached_folderName_calls [of cid w1] by simp
    with n1 have n2: "no_empty_upload w w2"
      by (auto intro: neu_trans neu_same)
    have e: "no_empty_upload w (fst (createEmptyDirectory R c folder w2))"
      using n2 neu_createEmptyDirectory neu_trans by blast
    obtain w3 r3 where u: "uploadDirectory P R c allFiles True (Some folder) w2 = (w3, r3)"
      by (cases "uploadDirectory P R c allFiles True (Some folder) w2")
    then have n3: "no_empty_upload w w3"
      using n2 neu_uploadDirectory [of w2 P R c allFiles True "Some folder"] neu_trans by auto
    then have n4: "no_empty_upload w (cleanup_old R cid r w3)" for r
      using neu_cleanup_old neu_trans by blast
    show ?thesis
      using tok Inr fr cf u n1 e n3 n4
      by (auto simp: removeFileFromDirectory_def neu_refl split: sum.splits)
  qed
qed

lemma connect_ok:
  assumes "health R" "userAddress c \<noteq> [] \<or> (truthy (authToken c) \<and> (\<exists>pins. pinLs R = Inr pins))"
  shows "\<exists>w1. connect_and_authenticate R c w = (w1, Inr ()) \<and>
           calls w1 = calls w @ Health # (if userAddress c = [] then [PinLs] else []) \<and>
           clock w1 = clock w"
  using assms
  by (auto simp: connect_and_authenticate_def checkRelayConnection_def checkAuthentication_def
      request_def)

lemma finish_upload_ok:
  assumes "ans = Inr res" "up_success res" "truthy (up_directoryCid res)"
  shows "finish_upload R fb mk ans w =
           (fst (saveFileMetadata R (mk (or_default (up_directoryCid res) [])) w),
            Inr \<lparr>res_success = True, res_directoryCid = Some (or_default (up_directoryCid res) []),
                 res_metadata = Some (mk (or_default (up_directoryCid res) []))\<rparr>)"
  using assms by (simp add: finish_upload_def Let_def)

lemma uploadDirectory_ok:
  assumes "truthy (authToken c)" "relay_accepts R" "fs \<noteq> []"
  shows "\<exists>w' r. uploadDirectory P R c fs enc folder w = (w', Inr r)"
proof -
  from assms obtain w1 where c1: "connect_and_authenticate R c w = (w1, Inr ())"
    using connect_ok [of R c w] by (auto simp: relay_accepts_def)
  obtain w2 es where p: "prepare_entries P c enc fs w1 = (w2, es)"
    by (cases "prepare_entries P c enc fs w1")
  from assms(2) obtain res where
    "uploadDirectoryBrowser R (map file_object es) = Inr res" "up_success res"
    "truthy (up_directoryCid res)"
    by (auto simp: relay_accepts_def)
  with assms c1 p show ?thesis
    by (simp add: uploadDirectory_def Let_def finish_upload_ok)
qed

lemma createEmptyDirectory_ok:
  assumes "truthy (authToken c)" "relay_accepts R"
  shows "\<exists>w' r. createEmptyDirectory R c folder w = (w', Inr r)"
proof -
  from assms obtain w1 where c1: "connect_and_authenticate R c w = (w1, Inr ())"
    using connect_ok [of R c w] by (auto simp: relay_accepts_def)
  from assms(2) obtain res where
    "uploadDirectoryBrowser R [placeholderFile folder] = Inr res" "up_success res"
    "truthy (up_directoryCid res)"
    by (auto simp: relay_accepts_def)
  with assms c1 show ?thesis
    by (simp add: createEmptyDirectory_def finish_upload_ok)
qed

lemma removeFileFromDirectory_ok:
  assumes tok: "truthy (authToken c)" and R: "relay_accepts R"
    and paths: "\<forall>m\<in>set ms. member_path m \<noteq> None"
    and hit: "\<exists>m\<in>set ms. \<not> keeps p m"
    and got: "filter (keeps p) ms = [] \<or> (\<exists>m\<in>set ms. keeps p m \<and> fetched R cid m)"
  shows "\<exists>w' r. removeFileFromDirectory P R c cid p ms w = (w', Inr r)"
proof -
  have f: "filter_members p ms = Inr (filter (keeps p) ms)"
    using paths by (rule filter_members_defined)
  from hit have l: "length (filter (keeps p) ms) \<noteq> length ms"
    by (metis filter_id_conv length_filter_le le_neq_implies_less length_filter_less nat_less_le)
  obtain w1 allFiles where fr: "fetch_remaining R c cid (filter (keeps p) ms) w = (w1, allFiles)"
    by (cases "fetch_remaining R c cid (filter (keeps p) ms) w")
  then have all: "allFiles = map (existing_file R cid) (filter (fetched R cid) (filter (keeps p) ms))"
    using fetch_remaining_result [OF tok, of R cid "filter (keeps p) ms" w] by simp
  from got have g: "\<not> (allFiles = [] \<and> filter (keeps p) ms \<noteq> [])"
    by (auto simp: all filter_empty_conv)
  obtain w2 folder where cf: "cached_folderName cid w1 = (w2, folder)"
    by (cases "cached_folderName cid w1")
  show ?thesis
  proof (cases "allFiles = []")
    case True
    with createEmptyDirectory_ok [OF tok R, of folder w2] tok f l fr g cf show ?thesis
      by (auto simp: removeFileFromDirectory_def)
  next
    case False
    with uploadDirectory_ok [OF tok R False, of P True "Some folder" w2] tok f l fr g cf
    show ?thesis
      by (auto simp: removeFileFromDirectory_def)
  qed
qed

lemma relay_ok_accepts: "relay_accepts relay_ok"
  by (simp add: relay_accepts_def relay_ok_def truthy_def)

lemma member_fields:
  "member_path (member path n) = (if path = [] then Some (last_segment path) else Some path)"
  "fm_path (member path n) = Some path"
  "relativePath_of (member path n) = js_or (Some path) (Some (last_segment path))"
  by (simp_all add: member_def member_path_def relativePath_of_def js_or_def truthy_def)

lemma last_segments:
  "last_segment ''a/x.txt'' = ''x.txt''" "last_segment ''b/x.txt'' = ''x.txt''"
  "last_segment ''c/y.txt'' = ''y.txt''" "last_segment ''a.txt'' = ''a.txt''"
  "last_segment ''b.txt'' = ''b.txt''" "last_segment ''c.txt'' = ''c.txt''"
  "last_segment ''zzz.txt'' = ''zzz.txt''" "last_segment ''d.txt'' = ''d.txt''"
  by (simp_all add: last_segment_def)

lemma relay_ok_fetched: "fetched relay_ok cid (member path n)"
  by (simp add: fetched_def member_fields relay_ok_def)

lemma console_simps:
  "console (warn msg w) = console w @ [(Warn, msg)]"
  "console (log_error msg w) = console w @ [(Err, msg)]"
  "console (request c w) = console w"
  by (simp_all add: warn_def log_error_def request_def)

lemma fetch_member_console:
  "truthy (authToken c) \<Longrightarrow>
   console (fst (fetch_member R c cid m w)) = console w @ skipped_log R cid m"
  by (auto simp: fetch_member_def skipped_log_def catFromDirectory_def Let_def
      normalize_path_last_segment last_segment_idem console_simps
      split: option.splits sum.splits)

lemma fetch_remaining_console:
  "truthy (authToken c) \<Longrightarrow>
   console (fst (fetch_remaining R c cid ms w)) = console w @ concat (map (skipped_log R cid) ms)"
proof (induction ms arbitrary: w)
  case Nil
  show ?case by simp
next
  case (Cons m ms)
  obtain w1 f where f: "fetch_member R c cid m w = (w1, f)" by (cases "fetch_member R c cid m w")
  with fetch_member_console [OF Cons.prems, of R cid m w]
  have "console w1 = console w @ skipped_log R cid m" by simp
  with Cons.IH [OF Cons.prems, of w1] f show ?case
    by (auto split: prod.splits)
qed

lemma skipped_log_fetched: "skipped_log R cid m = [] \<longleftrightarrow> fetched R cid m"
  by (auto simp: skipped_log_def fetched_def split: option.splits sum.splits)

lemma pc_saveFileMetadata: "prefix (console w) (console (fst (saveFileMetadata R m w)))"
proof (cases "saveSystemHash R m")
  case (Inl e)
  then show ?thesis
    by (simp add: saveFileMetadata_thrown console_simps)
next
  case (Inr success)
  then show ?thesis
    by (cases success)
      (simp_all add: saveFileMetadata_success saveFileMetadata_no_success console_simps)
qed

lemma pc_connect: "prefix (console w) (console (fst (connect_and_authenticate R c w)))"
  by (auto simp: connect_and_authenticate_def checkRelayConnection_def
      checkAuthentication_def console_simps split: sum.splits)

lemma pc_prepare_entries: "prefix (console w) (console (fst (prepare_entries P c enc fs w)))"
proof (induction fs arbitrary: w)
  case Nil
  show ?case by simp
next
  case (Cons f fs)
  obtain w1 e where e: "prepare_entry P c enc f w = (w1, e)"
    by (cases "prepare_entry P c enc f w")
  have "prefix (console w) (console (fst (prepare_entry P c enc f w)))"
    by (simp add: prepare_entry_def Let_def console_simps split: sum.splits)
  with e have "prefix (console w) (console w1)" by simp
  with Cons.IH [of w1] e show ?case
    by (auto split: prod.splits intro: prefix_order.trans)
qed

lemma pc_finish_upload: "prefix (console w) (console (fst (finish_upload R fb mk ans w)))"
  by (auto simp: finish_upload_def Let_def pc_saveFileMetadata split: sum.splits)

lemma pc_uploadDirectory:
  "prefix (console w) (console (fst (uploadDirectory P R c fs enc folder w)))"
proof -
  obtain w1 r1 where c1: "connect_and_authenticate R c w = (w1, r1)"
    by (cases "connect_and_authenticate R c w")
  have n1: "prefix (console w) (console w1)"
    using pc_connect [of w R c] c1 by simp
  obtain w2 es where p: "prepare_entries P c enc fs w1 = (w2, es)"
    by (cases "prepare_entries P c enc fs w1")
  have "prefix (console w1) (console w2)"
    using pc_prepare_entries [of w1 P c enc fs] p by simp
  with n1 have "prefix (console w) (console (request k w2))" for k
    by (auto simp: console_simps intro: prefix_order.trans)
  then have "prefix (console w) (console (fst (finish_upload R fb mk ans (request k w2))))"
    for fb mk ans k
    using pc_finish_upload prefix_order.trans by blast
  with c1 p n1 show ?thesis
    by (auto simp: uploadDirectory_def Let_def split: sum.splits)
qed

lemma pc_createEmptyDirectory:
  "prefix (console w) (console (fst (createEmptyDirectory R c folder w)))"
proof -
  obtain w1 r1 where c1: "connect_and_authenticate R c w = (w1, r1)"
    by (cases "connect_and_authenticate R c w")
  have n1: "prefix (console w) (console w1)"
    using pc_connect [of w R c] c1 by simp
  then have "prefix (console w) (console (request k w1))" for k
    by (auto simp: console_simps)
  then have "prefix (console w) (console (fst (finish_upload R fb mk ans (request k w1))))"
    for fb mk ans k
    using pc_finish_upload prefix_order.trans by blast
  with c1 n1 show ?thesis
    by (auto simp: createEmptyDirectory_def split: sum.splits)
qed

lemma pc_cached_folderName: "prefix (console w) (console (fst (cached_folderName cid w)))"
  by (simp add: cached_folderName_def console_simps split: cache_item.splits option.splits)

lemma pc_cleanup_old: "prefix (console w) (console (cleanup_old R cid r w))"
  by (auto simp: cleanup_old_def Let_def console_simps remove_from_cache_world(1)
      split: option.splits)

lemma removeFileFromDirectory_console:
  assumes "removeFileFromDirectory P R c cid p ms w = (w', Inr r)"
  shows "prefix (console w @ concat (map (skipped_log R cid) (filter (keeps p) ms))) (console w')"
proof -
  from assms have tok: "truthy (authToken c)"
    by (auto simp: removeFileFromDirectory_def split: if_splits)
  from assms tok obtain rem where rem: "filter_members p ms = Inr rem"
    by (cases "filter_members p ms") (auto simp: removeFileFromDirectory_def)
  then have rem_eq: "rem = filter (keeps p) ms"
    using filter_members_Inr by blast
  obtain w1 allFiles where fr: "fetch_remaining R c cid rem w = (w1, allFiles)"
    by (cases "fetch_remaining R c cid rem w")
  then have c1: "console w1 = console w @ concat (map (skipped_log R cid) rem)"
    using fetch_remaining_console [OF tok, of R cid rem w] by simp
  obtain w2 folder where cf: "cached_folderName cid w1 = (w2, folder)"
    by (cases "cached_folderName cid w1")
  then have c2: "prefix (console w1) (console w2)"
    using pc_cached_folderName [of w1 cid] by simp
  show ?thesis
  proof (cases "allFiles = []")
    case True
    with assms tok rem fr cf have "createEmptyDirectory R c folder w2 = (w', Inr r)"
      by (auto simp: removeFileFromDirectory_def split: if_splits)
    then have "prefix (console w2) (console w')"
      using pc_createEmptyDirectory [of w2 R c folder] by simp
    with c2 show ?thesis
      unfolding c1 [symmetric, unfolded rem_eq] by (rule prefix_order.trans)
  next
    case False
    with assms tok rem fr cf obtain w3 where
      u: "uploadDirectory P R c allFiles True (Some folder) w2 = (w3, Inr r)"
      and w': "w' = cleanup_old R cid r w3"
      by (auto simp: removeFileFromDirectory_def split: if_splits prod.splits sum.splits)
    from u have "prefix (console w2) (console w3)"
      using pc_uploadDirectory [of w2 P R c allFiles True "Some folder"] by simp
    with c2 have "prefix (console w1) (console w3)"
      by (rule prefix_order.trans)
    then have "prefix (console w1) (console w')"
      unfolding w' using pc_cleanup_old prefix_order.trans by blast
    then show ?thesis
      unfolding c1 [symmetric, unfolded rem_eq] .
  qed
qed

lemma relay_flaky_accepts: "relay_accepts relay_flaky"
  by (simp add: relay_accepts_def relay_flaky_def relay_ok_def truthy_def)

text \<open>
  C1, as stated, does not hold: the members are compared by their final path segment,
  so removing \<open>a/x.txt\<close> from a directory that lists \<open>a/x.txt\<close>, \<open>b/x.txt\<close> and
  \<open>c/y.txt\<close> (every fetch succeeding) gives a snapshot with \<open>c/y.txt\<close> only:
  \<open>b/x.txt\<close>, a member other than the removed one, is gone as well.
\<close>

theorem removeFileFromDirectory_drops_same_name:
  "Some ''b/x.txt'' \<in> set (map fm_path members_x_x_y) \<and>
   map_sum id snapshot_paths
     (snd (removeFileFromDirectory toy_platform relay_ok toy_core ''QmOld'' ''a/x.txt''
             members_x_x_y empty_world))
     = Inr [Some ''c/y.txt'']"
proof -
  have tok: "truthy (authToken toy_core)"
    by (simp add: toy_core_def truthy_def)
  have k: "filter (keeps ''a/x.txt'') members_x_x_y = [member ''c/y.txt'' 5]"
    by (simp add: members_x_x_y_def keeps_def member_fields last_segments)
  have h1: "\<forall>m\<in>set members_x_x_y. member_path m \<noteq> None"
    by (simp add: members_x_x_y_def member_fields)
  have h2: "\<exists>m\<in>set members_x_x_y. \<not> keeps ''a/x.txt'' m"
    by (simp add: members_x_x_y_def keeps_def member_fields last_segments)
  have h3: "filter (keeps ''a/x.txt'') members_x_x_y = [] \<or>
      (\<exists>m\<in>set members_x_x_y. keeps ''a/x.txt'' m \<and> fetched relay_ok ''QmOld'' m)"
    by (simp add: members_x_x_y_def keeps_def member_fields last_segments relay_ok_fetched)
  obtain w' r where r: "removeFileFromDirectory toy_platform relay_ok toy_core ''QmOld'' ''a/x.txt''
             members_x_x_y empty_world = (w', Inr r)"
    using removeFileFromDirectory_ok [OF tok relay_ok_accepts h1 h2 h3] by blast
  from removeFileFromDirectory_paths [OF r]
  have "snapshot_paths r = [Some ''c/y.txt'']"
    by (simp add: k relay_ok_fetched new_path_def member_fields js_or_def truthy_def)
  with r show ?thesis
    by (simp add: members_x_x_y_def member_fields)
qed

text \<open>
  C1, amended: in a directory whose members all have a path, whenever
  \<open>removeFileFromDirectory\<close> returns a snapshot, its members are, in the original
  order, exactly the original members whose final path segment differs from the final
  segment of \<open>p\<close> and whose content was fetched with at least one byte; \<open>p\<close> is not among
  them and nothing new is.  A member that stays after the filter and is left out has
  been logged: the lines of \<open>skipped_log\<close> for the members that stay, in their order,
  follow what the console held before and come before every later line, and a member
  has no line exactly when its content was fetched with at least one byte.  When no
  member's final path segment matches (and the auth token is set), the operation fails
  with \<open>File not found in directory\<close> and leaves the state as it was: no request is
  made, nothing is logged and no snapshot is produced.
\<close>

theorem removeFileFromDirectory_snapshot:
  assumes "\<forall>m\<in>set ms. truthy (fm_path m)"
  shows "(\<forall>w' r. removeFileFromDirectory P R c cid p ms w = (w', Inr r) \<longrightarrow>
            snapshot_paths r = map fm_path (filter (fetched R cid) (filter (keeps p) ms)) \<and>
            Some p \<notin> set (snapshot_paths r) \<and>
            set (snapshot_paths r) \<subseteq> set (map fm_path ms) \<and>
            prefix (console w @ concat (map (skipped_log R cid) (filter (keeps p) ms)))
              (console w')) \<and>
         (\<forall>m. (skipped_log R cid m = []) = fetched R cid m) \<and>
         (truthy (authToken c) \<and> (\<forall>m\<in>set ms. keeps p m) \<longrightarrow>
            removeFileFromDirectory P R c cid p ms w =
              (w, Inl (Error ''File not found in directory'')))"
proof -
  have np: "Some (new_path m) = fm_path m" if "m \<in> set ms" for m
    using assms that
    by (auto simp: new_path_def relativePath_of_def js_or_def truthy_def split: option.splits)
  have mp: "member_path m = fm_path m" if "m \<in> set ms" for m
    using assms that by (auto simp: member_path_def js_or_def)
  {
    fix w' r
    assume r: "removeFileFromDirectory P R c cid p ms w = (w', Inr r)"
    have s: "snapshot_paths r = map fm_path (filter (fetched R cid) (filter (keeps p) ms))"
      unfolding removeFileFromDirectory_paths [OF r]
      by (rule map_cong) (auto simp: np)
    have "Some p \<notin> set (snapshot_paths r)"
      unfolding s using mp by (auto simp: keeps_def split: option.splits)
    moreover have "set (snapshot_paths r) \<subseteq> set (map fm_path ms)"
      unfolding s by auto
    moreover note removeFileFromDirectory_console [OF r]
    ultimately have "snapshot_paths r = map fm_path (filter (fetched R cid) (filter (keeps p) ms)) \<and>
            Some p \<notin> set (snapshot_paths r) \<and>
            set (snapshot_paths r) \<subseteq> set (map fm_path ms) \<and>
            prefix (console w @ concat (map (skipped_log R cid) (filter (keeps p) ms)))
              (console w')"
      using s by simp
  }
  then show ?thesis
    using removeFileFromDirectory_not_found [of c ms p P R cid w] skipped_log_fetched [of R cid]
    by blast
qed

theorem removeFileFromDirectory_snapshot_witness:
  "map_sum id snapshot_paths
     (snd (removeFileFromDirectory toy_platform relay_flaky toy_core ''QmOld'' ''b.txt''
             members_a_b_c_d empty_world))
     = Inr [Some ''d.txt''] \<and>
   prefix [(Err, ''Error catting file from directory:''),
           (Warn, ''Failed to retrieve existing file a.txt:''),
           (Warn, ''Empty blob for file c.txt, skipping'')]
     (console (fst (removeFileFromDirectory toy_platform relay_flaky toy_core ''QmOld'' ''b.txt''
             members_a_b_c_d empty_world))) \<and>
   removeFileFromDirectory toy_platform relay_flaky toy_core ''QmOld'' ''zzz.txt''
             members_a_b_c_d empty_world
     = (empty_world, Inl (Error ''File not found in directory''))"
proof -
  have tok: "truthy (authToken toy_core)"
    by (simp add: toy_core_def truthy_def)
  have p: "\<forall>m\<in>set members_a_b_c_d. truthy (fm_path m)"
    by (simp add: members_a_b_c_d_def member_fields truthy_def)
  have k: "filter (keeps ''b.txt'') members_a_b_c_d =
      [member ''a.txt'' 10, member ''c.txt'' 5, member ''d.txt'' 7]"
    by (simp add: members_a_b_c_d_def keeps_def member_fields last_segments)
  have z: "\<forall>m\<in>set members_a_b_c_d. keeps ''zzz.txt'' m"
    by (simp add: members_a_b_c_d_def keeps_def member_fields last_segments)
  have f: "\<not> fetched relay_flaky ''QmOld'' (member ''a.txt'' 10)"
    "\<not> fetched relay_flaky ''QmOld'' (member ''c.txt'' 5)"
    "fetched relay_flaky ''QmOld'' (member ''d.txt'' 7)"
    by (simp_all add: fetched_def member_fields last_segments relay_flaky_def)
  have l: "skipped_log relay_flaky ''QmOld'' (member ''a.txt'' 10) =
      [(Err, ''Error catting file from directory:''),
       (Warn, ''Failed to retrieve existing file a.txt:'')]"
    "skipped_log relay_flaky ''QmOld'' (member ''c.txt'' 5) =
      [(Warn, ''Empty blob for file c.txt, skipping'')]"
    "skipped_log relay_flaky ''QmOld'' (member ''d.txt'' 7) = []"
    by (simp_all add: skipped_log_def member_fields last_segments relay_flaky_def
        failed_to_retrieve_def empty_blob_def)
  have c: "console empty_world = []"
    by (simp add: empty_world_def)
  have h1: "\<forall>m\<in>set members_a_b_c_d. member_path m \<noteq> None"
    by (simp add: members_a_b_c_d_def member_fields)
  have h2: "\<exists>m\<in>set members_a_b_c_d. \<not> keeps ''b.txt'' m"
    by (simp add: members_a_b_c_d_def keeps_def member_fields last_segments)
  have h3: "filter (keeps ''b.txt'') members_a_b_c_d = [] \<or>
      (\<exists>m\<in>set members_a_b_c_d. keeps ''b.txt'' m \<and> fetched relay_flaky ''QmOld'' m)"
    by (simp add: members_a_b_c_d_def keeps_def member_fields last_segments f)
  obtain w' r where r: "removeFileFromDirectory toy_platform relay_flaky toy_core ''QmOld'' ''b.txt''
             members_a_b_c_d empty_world = (w', Inr r)"
    using removeFileFromDirectory_ok [OF tok relay_flaky_accepts h1 h2 h3] by blast
  from removeFileFromDirectory_snapshot [OF p, of toy_platform relay_flaky toy_core "''QmOld''"
      "''b.txt''" empty_world] r tok z
    removeFileFromDirectory_snapshot [OF p, of toy_platform relay_flaky toy_core "''QmOld''"
      "''zzz.txt''" empty_world]
  show ?thesis
    by (simp add: k f l c member_fields)
qed

text \<open>
  C5: when every member of the directory matches the path to remove (so nothing
  remains, as when the last member is removed), the relay answers the health check, the
  credential is accepted and the upload of the marker succeeds with the cid \<open>new\<close>, then
  \<open>removeFileFromDirectory\<close> returns the placeholder snapshot \<open>new\<close>: a directory record
  with no members under the name of the old directory, built by one upload whose only
  member is the marker, the file \<open>.keep\<close> of type \<open>application/x-empty\<close> with no bytes,
  at the path \<open>.keep\<close> under the folder name.  And whatever the inputs,
  \<open>removeFileFromDirectory\<close> never adds an upload of a directory without members to
  the requests.
\<close>

theorem removeFileFromDirectory_last_member:
  assumes tok: "truthy (authToken c)" and h: "health R"
    and a: "userAddress c \<noteq> [] \<or> (\<exists>pins. pinLs R = Inr pins)"
    and ne: "ms \<noteq> []"
    and all: "\<forall>m\<in>set ms. \<exists>fp. member_path m = Some fp \<and> last_segment fp = last_segment p"
    and folder: "snd (cached_folderName cid w) = folder"
    and up: "uploadDirectoryBrowser R
               [\<lparr>file_content = [], file_type = ''application/x-empty'', file_name = ''.keep'',
                 webkitRelativePath = Some (folder @ ''/.keep'')\<rparr>] =
               Inr \<lparr>up_success = True, up_directoryCid = Some new, up_error = err\<rparr>"
    and new: "new \<noteq> []"
  shows "(\<exists>w' md. removeFileFromDirectory P R c cid p ms w =
            (w', Inr \<lparr>res_success = True, res_directoryCid = Some new, res_metadata = Some md\<rparr>) \<and>
          md_hash md = new \<and> md_isDirectory md \<and> md_files md = Some [] \<and> md_fileCount md = 0 \<and>
          md_displayName md = Some folder \<and>
          calls w' = calls w @ Health # (if userAddress c = [] then [PinLs] else []) @
            [UploadDirectoryBrowser
               [\<lparr>file_content = [], file_type = ''application/x-empty'', file_name = ''.keep'',
                 webkitRelativePath = Some (folder @ ''/.keep'')\<rparr>],
             SaveSystemHash md]) \<and>
         no_empty_upload w0 (fst (removeFileFromDirectory P0 R0 c0 cid0 p0 ms0 w0))"
proof -
  from all have d: "\<forall>m\<in>set ms. member_path m \<noteq> None" by auto
  from all have "filter (keeps p) ms = []"
    by (auto simp: keeps_def filter_empty_conv)
  with d have f: "filter_members p ms = Inr []"
    using filter_members_defined [of ms p] by simp
  obtain w2 where cf: "cached_folderName cid w = (w2, folder)"
    using folder by (cases "cached_folderName cid w") simp
  then have c2: "calls w2 = calls w"
    using cached_folderName_calls [of cid w] by simp
  from h a tok obtain w3 where
    c3: "connect_and_authenticate R c w2 = (w3, Inr ())"
        "calls w3 = calls w2 @ Health # (if userAddress c = [] then [PinLs] else [])"
    using connect_ok [of R c w2] by auto
  let ?md = "\<lparr>md_hash = new, md_displayName = Some folder,
                       md_fileName = Some folder, md_fileSize = 0,
                       md_isEncrypted = False, md_isDirectory = True, md_fileCount = 0,
                       md_files = Some [], md_uploadedAt = clock w3\<rparr>"
  let ?w' = "fst (saveFileMetadata R ?md (request (UploadDirectoryBrowser [placeholderFile folder]) w3))"
  from up have u: "uploadDirectoryBrowser R [placeholderFile folder] =
               Inr \<lparr>up_success = True, up_directoryCid = Some new, up_error = err\<rparr>"
    by (simp add: placeholderFile_def)
  have "removeFileFromDirectory P R c cid p ms w =
      (?w', Inr \<lparr>res_success = True, res_directoryCid = Some new, res_metadata = Some ?md\<rparr>)"
    using tok ne f cf c3(1) u new
    by (simp add: removeFileFromDirectory_def createEmptyDirectory_def finish_upload_def
        truthy_def or_default_def Let_def)
  moreover have "calls ?w' = calls w @ Health # (if userAddress c = [] then [PinLs] else []) @
            [UploadDirectoryBrowser
               [\<lparr>file_content = [], file_type = ''application/x-empty'', file_name = ''.keep'',
                 webkitRelativePath = Some (folder @ ''/.keep'')\<rparr>],
             SaveSystemHash ?md]"
    by (simp add: saveFileMetadata_calls calls_simps c3(2) c2 placeholderFile_def)
  ultimately show ?thesis
    using neu_removeFileFromDirectory [of w0 P0 R0 c0 cid0 p0 ms0] by auto
qed

theorem removeFileFromDirectory_last_member_witness:
  "\<exists>w' md. removeFileFromDirectory toy_platform relay_ok toy_core ''QmA'' ''a.txt''
               [member ''docs/a.txt'' 10] fresh_world =
       (w', Inr \<lparr>res_success = True, res_directoryCid = Some ''QmNew'', res_metadata = Some md\<rparr>) \<and>
     md_files md = Some [] \<and> md_displayName md = Some ''docs'' \<and>
     calls w' = [Health, PinLs,
                 UploadDirectoryBrowser
                   [\<lparr>file_content = [], file_type = ''application/x-empty'', file_name = ''.keep'',
                     webkitRelativePath = Some ''docs/.keep''\<rparr>],
                 SaveSystemHash md]"
proof -
  have tok: "truthy (authToken toy_core)" "userAddress toy_core = []"
    by (simp_all add: toy_core_def truthy_def)
  have h: "health relay_ok" "userAddress toy_core \<noteq> [] \<or> (\<exists>pins. pinLs relay_ok = Inr pins)"
    by (simp_all add: relay_ok_def)
  have m: "\<forall>m\<in>set [member ''docs/a.txt'' 10].
      \<exists>fp. member_path m = Some fp \<and> last_segment fp = last_segment ''a.txt''"
    by (simp add: member_fields last_segment_def)
  have cf: "snd (cached_folderName ''QmA'' fresh_world) = ''docs''"
    by (simp add: cached_folderName_def fresh_world_def empty_world_def toy_record_def
        js_or_def truthy_def or_default_def)
  have u: "uploadDirectoryBrowser relay_ok
               [\<lparr>file_content = [], file_type = ''application/x-empty'', file_name = ''.keep'',
                 webkitRelativePath = Some (''docs'' @ ''/.keep'')\<rparr>] =
               Inr \<lparr>up_success = True, up_directoryCid = Some ''QmNew'', up_error = None\<rparr>"
    by (simp add: relay_ok_def)
  have c: "calls fresh_world = []"
    by (simp add: fresh_world_def empty_world_def)
  from removeFileFromDirectory_last_member [OF tok(1) h _ m cf u, of toy_platform]
  show ?thesis
    by (simp add: c tok(2)) blast
qed

end
